theory Spec2Isabelle
  imports Main "HOL-Library.Word"
begin

unbundle bit_operations_syntax

section \<open>logger.hpp: severity levels, activity predicates, colors\<close>

text \<open>
  \<^verbatim>\<open>enum level { trace, debug, info, warn, error, crit, last = crit, everything = trace };\<close>
  The enumerators are the integers 0 to 5; the header compares them with \<^verbatim>\<open>>=\<close>.
\<close>

datatype level = trace | debug | info | warn | error | crit

fun level_value :: "level \<Rightarrow> nat" where
  "level_value trace = 0"
| "level_value debug = 1"
| "level_value info = 2"
| "level_value warn = 3"
| "level_value error = 4"
| "level_value crit = 5"

text \<open>
  \<^verbatim>\<open>inline bool is_clog_active (level lv) { return lv >= EXT_LOG_LEVEL; }\<close>
  \<^verbatim>\<open>EXT_LOG_LEVEL\<close> is a macro the embedding program may define (its default is
  \<^verbatim>\<open>logg::info\<close>), so it is the first argument here.
\<close>

definition EXT_LOG_LEVEL_default :: level where
  "EXT_LOG_LEVEL_default = info"

definition is_clog_active :: "level \<Rightarrow> level \<Rightarrow> bool" where
  "is_clog_active EXT_LOG_LEVEL lv = (level_value lv \<ge> level_value EXT_LOG_LEVEL)"

definition is_cerr_active :: "level \<Rightarrow> level \<Rightarrow> bool" where
  "is_cerr_active EXT_LOG_LEVEL lv = (level_value lv \<ge> level_value EXT_LOG_LEVEL)"

text \<open>
  \<^verbatim>\<open>#define EXT_CLOG_IF(level) if (!EXT_CLOG_ACTIVE (level)); else (EXT_CLOG_STREAM (level))\<close>
  The statement that follows the macro (the insertions into the stream) runs only in the
  else branch; \<open>stmt\<close> is that statement, as a state transformer that may fail.
\<close>

definition EXT_CLOG_IF :: "level \<Rightarrow> level \<Rightarrow> ('s \<Rightarrow> 'e + 's) \<Rightarrow> 's \<Rightarrow> 'e + 's" where
  "EXT_CLOG_IF EXT_LOG_LEVEL lv stmt s =
     (if \<not> is_clog_active EXT_LOG_LEVEL lv then Inr s else stmt s)"

definition EXT_CERR_IF :: "level \<Rightarrow> level \<Rightarrow> ('s \<Rightarrow> 'e + 's) \<Rightarrow> 's \<Rightarrow> 'e + 's" where
  "EXT_CERR_IF EXT_LOG_LEVEL lv stmt s =
     (if \<not> is_cerr_active EXT_LOG_LEVEL lv then Inr s else stmt s)"

text \<open>
  \<^verbatim>\<open>#define LTRACE_ EXT_CLOG_IF (trace)\<close> to \<^verbatim>\<open>#define LCRIT_ EXT_CERR_IF (crit)\<close>.
\<close>

definition LTRACE :: "level \<Rightarrow> ('s \<Rightarrow> 'e + 's) \<Rightarrow> 's \<Rightarrow> 'e + 's" where
  "LTRACE EXT_LOG_LEVEL = EXT_CLOG_IF EXT_LOG_LEVEL trace"

definition LDEBUG :: "level \<Rightarrow> ('s \<Rightarrow> 'e + 's) \<Rightarrow> 's \<Rightarrow> 'e + 's" where
  "LDEBUG EXT_LOG_LEVEL = EXT_CLOG_IF EXT_LOG_LEVEL debug"

definition LINFO :: "level \<Rightarrow> ('s \<Rightarrow> 'e + 's) \<Rightarrow> 's \<Rightarrow> 'e + 's" where
  "LINFO EXT_LOG_LEVEL = EXT_CLOG_IF EXT_LOG_LEVEL info"

definition LWARN :: "level \<Rightarrow> ('s \<Rightarrow> 'e + 's) \<Rightarrow> 's \<Rightarrow> 'e + 's" where
  "LWARN EXT_LOG_LEVEL = EXT_CERR_IF EXT_LOG_LEVEL warn"

definition LERR :: "level \<Rightarrow> ('s \<Rightarrow> 'e + 's) \<Rightarrow> 's \<Rightarrow> 'e + 's" where
  "LERR EXT_LOG_LEVEL = EXT_CERR_IF EXT_LOG_LEVEL error"

definition LCRIT :: "level \<Rightarrow> ('s \<Rightarrow> 'e + 's) \<Rightarrow> 's \<Rightarrow> 'e + 's" where
  "LCRIT EXT_LOG_LEVEL = EXT_CERR_IF EXT_LOG_LEVEL crit"

text \<open>\<^verbatim>\<open>typedef unsigned short color_t;\<close> and \<^verbatim>\<open>enum console_color\<close>.\<close>

type_synonym color_t = "16 word"

definition fg_black :: color_t where "fg_black = 0"
definition fg_blue :: color_t where "fg_blue = 0x0001"
definition fg_green :: color_t where "fg_green = 0x0002"
definition fg_cyan :: color_t where "fg_cyan = 0x0002 OR 0x0001"
definition fg_red :: color_t where "fg_red = 0x0004"
definition fg_magenta :: color_t where "fg_magenta = 0x0004 OR 0x0001"
definition fg_yellow :: color_t where "fg_yellow = 0x0004 OR 0x0002"
definition fg_white :: color_t where "fg_white = 0x0004 OR 0x0002 OR 0x0001"
definition fg_bright :: color_t where "fg_bright = 0x0008"
definition fg_color :: color_t where "fg_color = fg_white"
definition bg_black :: color_t where "bg_black = 0"
definition bg_blue :: color_t where "bg_blue = 0x0010"
definition bg_green :: color_t where "bg_green = 0x0020"
definition bg_cyan :: color_t where "bg_cyan = 0x0020 OR 0x0010"
definition bg_red :: color_t where "bg_red = 0x0040"
definition bg_magenta :: color_t where "bg_magenta = 0x0040 OR 0x0010"
definition bg_yellow :: color_t where "bg_yellow = 0x0040 OR 0x0020"
definition bg_white :: color_t where "bg_white = 0x0040 OR 0x0020 OR 0x0010"
definition bg_bright :: color_t where "bg_bright = 0x0080"
definition bg_color :: color_t where "bg_color = bg_white"

text \<open>\<^verbatim>\<open>(color_t)-1\<close>: the value that stands for "no custom color".\<close>

definition no_color :: color_t where
  "no_color = - 1"

definition EXT_LOG_COLOR :: color_t where
  "EXT_LOG_COLOR = fg_white OR fg_bright"

definition EXT_ERR_COLOR :: color_t where
  "EXT_ERR_COLOR = bg_red OR fg_white OR fg_bright"

section \<open>logger.cc: the data of the stream buffer\<close>

type_synonym raw_handle = int
type_synonym thread_id = nat

text \<open>
  \<^verbatim>\<open>struct line_buffer\<close>: the text of the line under construction and the color to
  restore. \<open>m_owner\<close> is a back pointer; the functions below take the owner as an
  argument instead. \<open>m_convert_cp\<close> exists in the Win32 build only.
\<close>

record line_buffer =
  m_text :: string
  m_default_color :: color_t
  m_convert_cp :: bool

text \<open>
  \<^verbatim>\<open>class logger : public std::streambuf\<close>. \<open>m_buffer\<close> is a
  \<^verbatim>\<open>thread_specific_ptr<line_buffer>\<close>: one pointer per thread, null until the thread's
  first write.
\<close>

record logger =
  m_con :: raw_handle
  m_buffer :: "thread_id \<Rightarrow> line_buffer option"
  m_custom_color :: color_t
  m_use_color :: bool
  m_prepend_time :: bool
  m_opened_file :: bool

section \<open>The operating system\<close>

text \<open>
  The calls the logger makes to the operating system and the C library are recorded in
  order, each with the outcome the system reported. \<^verbatim>\<open>sys::write_file\<close>,
  \<^verbatim>\<open>sys::create_file\<close>, \<^verbatim>\<open>sys::close_file\<close> and \<^verbatim>\<open>sys::isatty\<close> come from
  \<^verbatim>\<open>sysio.h\<close>, which is not part of the sources; they are taken as reporting failure by
  their result (section 6 of the specification), which \<^verbatim>\<open>write_line\<close> discards.
\<close>

datatype event =
    Write_file raw_handle string bool
  | Create_file string "raw_handle option"
  | Close_file raw_handle
  | Lseek_end raw_handle
  | Set_console_text_attribute raw_handle color_t

text \<open>
  The state outside the program: the calls made so far, the number of times the clock has
  been read, and (Win32) the current attribute word of each console screen buffer.
\<close>

record world =
  events :: "event list"
  clock :: nat
  console :: "raw_handle \<Rightarrow> color_t option"

text \<open>
  What the environment decides. \<open>NDEBUG\<close>: whether \<^verbatim>\<open>assert\<close> is compiled out.
  \<open>formatted_time n tid\<close>: at the \<open>n\<close>-th reading of the clock by thread \<open>tid\<close>, the
  complete text that the format \<^verbatim>\<open>"%02d:%02d:%02d.%03d [%08x] "\<close> produces (before it is
  cut to the 32 bytes of \<^verbatim>\<open>cvtbuf\<close>), or \<open>None\<close> when \<^verbatim>\<open>gettimeofday\<close> or
  \<^verbatim>\<open>snprintf\<close> returns -1. \<open>write_ok n\<close>: whether a write issued after \<open>n\<close> earlier
  calls succeeds. \<open>open_file\<close>: the result of \<^verbatim>\<open>sys::create_file\<close> on a path.
  \<open>is_a_tty\<close>: \<^verbatim>\<open>isatty\<close>. \<open>to_wide\<close> and \<open>to_console_cp\<close>: (Win32) the results of
  \<^verbatim>\<open>MultiByteToWideChar\<close> and \<^verbatim>\<open>WideCharToMultiByte\<close>, each with its retry on
  \<^verbatim>\<open>ERROR_INSUFFICIENT_BUFFER\<close>; \<open>None\<close> stands for a zero count.
\<close>

record os =
  NDEBUG :: bool
  formatted_time :: "nat \<Rightarrow> thread_id \<Rightarrow> string option"
  write_ok :: "nat \<Rightarrow> bool"
  open_file :: "string \<Rightarrow> raw_handle option"
  is_a_tty :: "raw_handle \<Rightarrow> bool"
  to_wide :: "string \<Rightarrow> nat list option"
  to_console_cp :: "nat list \<Rightarrow> string option"

datatype failure = Assertion_failed

definition LF :: char where "LF = CHR 0x0A"
definition CR :: char where "CR = CHR 0x0D"
definition ESC :: char where "ESC = CHR 0x1B"
definition NUL :: char where "NUL = CHR 0x00"

section \<open>logger.cc: the line buffer (build without \<^verbatim>\<open>_WIN32\<close>)\<close>

definition s_limit :: nat where
  "s_limit = 1000"

definition new_line_buffer :: line_buffer where
  "new_line_buffer = \<lparr>m_text = [], m_default_color = no_color, m_convert_cp = False\<rparr>"

definition get_color :: "logger \<Rightarrow> color_t" where
  "get_color lg = m_custom_color lg"

definition set_color :: "color_t \<Rightarrow> logger \<Rightarrow> logger" where
  "set_color attr lg = lg\<lparr>m_custom_color := attr\<rparr>"

text \<open>\<^verbatim>\<open>logger::buffer()\<close>: the calling thread's line buffer, created on first use.\<close>

definition buffer :: "logger \<Rightarrow> thread_id \<Rightarrow> line_buffer" where
  "buffer lg tid = (case m_buffer lg tid of None \<Rightarrow> new_line_buffer | Some bufptr \<Rightarrow> bufptr)"

text \<open>The line buffer is changed in place through the pointer; the model stores it back.\<close>

definition store_buffer :: "thread_id \<Rightarrow> line_buffer \<Rightarrow> logger \<Rightarrow> logger" where
  "store_buffer tid lb lg = lg\<lparr>m_buffer := (m_buffer lg)(tid \<mapsto> lb)\<rparr>"

text \<open>\<^verbatim>\<open>logger::write_line\<close>: one call of \<^verbatim>\<open>sys::write_file (m_con, data, size)\<close>.\<close>

definition write_line :: "os \<Rightarrow> logger \<Rightarrow> string \<Rightarrow> world \<Rightarrow> world" where
  "write_line sys owner data w =
     w\<lparr>events := events w @ [Write_file (m_con owner) data (write_ok sys (length (events w)))]\<rparr>"

definition append_crlf :: "line_buffer \<Rightarrow> line_buffer" where
  "append_crlf lb = lb\<lparr>m_text := m_text lb @ [LF]\<rparr>"

text \<open>The two \<^verbatim>\<open>switch\<close> statements of \<^verbatim>\<open>set_custom_color\<close>; \<open>None\<close> is the null pointer.\<close>

definition foreground :: "color_t \<Rightarrow> string option" where
  "foreground custom_color =
     (let v = custom_color AND fg_color in
      if v = fg_black then Some ''30''
      else if v = fg_red then Some ''31''
      else if v = fg_green then Some ''32''
      else if v = fg_yellow then Some ''33''
      else if v = fg_blue then Some ''34''
      else if v = fg_magenta then Some ''35''
      else if v = fg_cyan then Some ''36''
      else if v = fg_white then Some ''37''
      else None)"

definition background :: "color_t \<Rightarrow> string option" where
  "background custom_color =
     (let v = custom_color AND bg_color in
      if v = bg_black then Some ''40''
      else if v = bg_red then Some ''41''
      else if v = bg_green then Some ''42''
      else if v = bg_yellow then Some ''43''
      else if v = bg_blue then Some ''44''
      else if v = bg_magenta then Some ''45''
      else if v = bg_cyan then Some ''46''
      else if v = bg_white then Some ''47''
      else None)"

text \<open>
  \<^verbatim>\<open>line_buffer::set_custom_color\<close> (ANSI build). \<open>t0\<close> to \<open>t3\<close> are the successive
  values of \<open>m_text\<close>.
\<close>

definition set_custom_color :: "logger \<Rightarrow> line_buffer \<Rightarrow> line_buffer" where
  "set_custom_color owner lb =
     (let custom_color = get_color owner in
      if no_color = custom_color then lb\<lparr>m_default_color := no_color\<rparr>
      else
        let seq_start = length (m_text lb);
            t0 = m_text lb @ [ESC, CHR ''[''];
            t1 = (case foreground custom_color of Some f \<Rightarrow> t0 @ f | None \<Rightarrow> t0);
            t2 = (case background custom_color of
                    Some b \<Rightarrow> (if length t1 - seq_start \<noteq> 2 then t1 @ '';'' else t1) @ b
                  | None \<Rightarrow> t1);
            t3 = (if custom_color AND (fg_bright OR bg_bright) \<noteq> 0
                  then (if length t2 - seq_start \<noteq> 2 then t2 @ '';'' else t2) @ ''1''
                  else t2)
        in if length t3 - seq_start > 2
           then lb\<lparr>m_text := t3 @ ''m'', m_default_color := custom_color\<rparr>
           else lb\<lparr>m_text := take seq_start t3, m_default_color := no_color\<rparr>)"

text \<open>
  \<^verbatim>\<open>line_buffer::append_time\<close> (ANSI build). \<open>rc\<close> is the result of \<^verbatim>\<open>snprintf\<close>, the
  length of the complete text; \<open>cvtbuf\<close> holds at most 31 of its bytes and a NUL.
\<close>

definition append_time ::
  "os \<Rightarrow> logger \<Rightarrow> thread_id \<Rightarrow> world \<times> line_buffer \<Rightarrow> world \<times> line_buffer" where
  "append_time sys owner tid = (\<lambda>(w, lb).
     let lb1 = (if m_use_color owner then set_custom_color owner lb else lb);
         w1 = w\<lparr>clock := clock w + 1\<rparr>
     in case formatted_time sys (clock w) tid of
          None \<Rightarrow> (w1, lb1)
        | Some s \<Rightarrow>
            let cvtbuf = (if length s < 32 then s else take 31 s @ [NUL]);
                rc = (if length s > 32 then 32 else length s)
            in (w1, lb1\<lparr>m_text := m_text lb1 @ take rc cvtbuf\<rparr>))"

text \<open>\<^verbatim>\<open>line_buffer::flush\<close> (ANSI build).\<close>

definition flush :: "os \<Rightarrow> logger \<Rightarrow> world \<times> line_buffer \<Rightarrow> world \<times> line_buffer" where
  "flush sys owner = (\<lambda>(w, lb).
     let lb1 = (if m_text lb \<noteq> [] \<and> m_default_color lb \<noteq> no_color
                then lb\<lparr>m_text := m_text lb @ [ESC, CHR ''['', CHR ''0'', CHR ''m'']\<rparr>
                else lb);
         lb2 = append_crlf lb1;
         w1 = write_line sys owner (m_text lb2) w
     in (w1, lb2\<lparr>m_text := []\<rparr>))"

text \<open>
  \<^verbatim>\<open>s_limit - m_text.size()\<close> is computed in \<^verbatim>\<open>size_t\<close> (64 bits), where it wraps
  around when the text is longer than the limit.
\<close>

definition size_t_sub :: "nat \<Rightarrow> nat \<Rightarrow> nat" where
  "size_t_sub a b = (a + (2 ^ 64 - b mod 2 ^ 64)) mod 2 ^ 64"

text \<open>
  One pass through the body of the \<^verbatim>\<open>while\<close> loop of \<^verbatim>\<open>line_buffer::append\<close>, after
  its \<^verbatim>\<open>assert\<close>: the rest of the input and the state after it.
\<close>

definition append_body ::
  "os \<Rightarrow> logger \<Rightarrow> thread_id \<Rightarrow> string \<Rightarrow> world \<times> line_buffer
     \<Rightarrow> string \<times> world \<times> line_buffer" where
  "append_body sys owner tid buf = (\<lambda>(w, lb).
     let chunk = min (size_t_sub s_limit (length (m_text lb))) (length buf);
         lb1 = lb\<lparr>m_text := m_text lb @ take chunk buf\<rparr>;
         st2 = flush sys owner (w, lb1);
         buf' = drop chunk buf
     in (buf', if buf' \<noteq> [] \<and> m_prepend_time owner then append_time sys owner tid st2 else st2))"

text \<open>
  The loop of \<^verbatim>\<open>append\<close> stops because every pass but possibly the first consumes input:
  after a pass the buffer holds at most a color sequence and a timestamp.
\<close>

lemma foreground_length: "foreground c = Some f \<Longrightarrow> length f = 2"
  by (auto simp: foreground_def Let_def split: if_splits)

lemma background_length: "background c = Some b \<Longrightarrow> length b = 2"
  by (auto simp: background_def Let_def split: if_splits)

lemma set_custom_color_length:
  "length (m_text (set_custom_color owner lb)) \<le> length (m_text lb) + 10"
  by (auto simp: set_custom_color_def Let_def
           dest!: foreground_length background_length split: option.splits)

lemma append_time_length:
  "append_time sys owner tid (w, lb) = (w', lb')
     \<Longrightarrow> length (m_text lb') \<le> length (m_text lb) + 42"
  using set_custom_color_length[of owner lb]
  by (auto simp: append_time_def Let_def split: option.splits if_splits)

lemma flush_text: "flush sys owner (w, lb) = (w', lb') \<Longrightarrow> m_text lb' = []"
  by (auto simp: flush_def Let_def append_crlf_def)

lemma wrap_sub:
  fixes K :: nat
  assumes "b \<le> a" and "a < K"
  shows "(a + (K - b mod K)) mod K = a - b"
proof -
  have "b mod K = b" using assms by simp
  moreover have "a + (K - b) = (a - b) + K" using assms by simp
  moreover have "(a - b) mod K = a - b" using assms by simp
  ultimately show ?thesis by (metis mod_add_self2)
qed

lemma size_t_sub_small:
  assumes "b \<le> a" and "a < 2 ^ 64"
  shows "size_t_sub a b = a - b"
  unfolding size_t_sub_def using assms by (rule wrap_sub)

lemma append_body_measure:
  assumes "append_body sys owner tid buf (w, lb) = (buf', w', lb')"
      and "length buf + length (m_text lb) > s_limit"
  shows "length (m_text lb') < s_limit"
    and "length buf' \<le> length buf"
    and "length (m_text lb) < s_limit \<Longrightarrow> length buf' < length buf"
proof -
  let ?chunk = "min (size_t_sub s_limit (length (m_text lb))) (length buf)"
  obtain w2 lb2 where
    f: "flush sys owner (w, lb\<lparr>m_text := m_text lb @ take ?chunk buf\<rparr>) = (w2, lb2)"
    by (cases "flush sys owner (w, lb\<lparr>m_text := m_text lb @ take ?chunk buf\<rparr>)")
  have e: "m_text lb2 = []" using flush_text[OF f] .
  show "length (m_text lb') < s_limit"
    using assms(1) f e append_time_length[of sys owner tid w2 lb2 w' lb']
    by (auto simp: append_body_def Let_def s_limit_def split: if_splits)
  show "length buf' \<le> length buf"
    using assms(1) by (auto simp: append_body_def Let_def)
  show "length buf' < length buf" if "length (m_text lb) < s_limit"
    using assms that size_t_sub_small[of "length (m_text lb)" s_limit]
    by (auto simp: append_body_def Let_def s_limit_def)
qed

text \<open>
  The \<^verbatim>\<open>while\<close> loop of \<^verbatim>\<open>line_buffer::append\<close> and the statement after it. \<open>buf\<close> is
  the rest of the input (\<^verbatim>\<open>size\<close> is its length). A failed \<^verbatim>\<open>assert\<close> ends the
  program.
\<close>

function append_loop ::
  "os \<Rightarrow> logger \<Rightarrow> thread_id \<Rightarrow> string \<Rightarrow> world \<times> line_buffer
     \<Rightarrow> failure + world \<times> line_buffer" where
  "append_loop sys owner tid buf (w, lb) =
     (if length buf + length (m_text lb) > s_limit then
        if \<not> NDEBUG sys \<and> \<not> length (m_text lb) < s_limit then Inl Assertion_failed
        else (case append_body sys owner tid buf (w, lb) of
                (buf', st') \<Rightarrow> append_loop sys owner tid buf' st')
      else Inr (w, if buf \<noteq> [] then lb\<lparr>m_text := m_text lb @ buf\<rparr> else lb))"
  by pat_completeness auto
termination
proof (relation "measures [\<lambda>(sys, owner, tid, buf, w, lb). length buf,
         \<lambda>(sys, owner, tid, buf, w, lb). if length (m_text lb) < s_limit then 0 else 1]",
       goal_cases)
  case 1
  show ?case by simp
next
  case (2 sys owner tid buf w lb buf' st')
  obtain w' lb' where st': "st' = (w', lb')" by (cases st')
  with 2 have b: "append_body sys owner tid buf (w, lb) = (buf', w', lb')" by simp
  show ?case
    using append_body_measure[OF b 2(1)] st'
    by (cases "length (m_text lb) < s_limit") auto
qed

declare append_loop.simps [simp del]

text \<open>\<^verbatim>\<open>line_buffer::append (const char* buf, size_t size)\<close>.\<close>

definition append ::
  "os \<Rightarrow> logger \<Rightarrow> thread_id \<Rightarrow> string \<Rightarrow> world \<times> line_buffer
     \<Rightarrow> failure + world \<times> line_buffer" where
  "append sys owner tid buf = (\<lambda>(w, lb).
     append_loop sys owner tid buf
       (if m_prepend_time owner \<and> m_text lb = [] then append_time sys owner tid (w, lb)
        else (w, lb)))"

section \<open>logger.cc: the stream buffer\<close>

text \<open>
  The loop of \<^verbatim>\<open>logger::xsputn\<close>. \<open>line\<close> is the input up to the first newline
  (\<^verbatim>\<open>nl - buf\<close> bytes); the loop goes on behind that newline.
\<close>

function xsputn_loop ::
  "os \<Rightarrow> logger \<Rightarrow> thread_id \<Rightarrow> string \<Rightarrow> world \<times> line_buffer
     \<Rightarrow> failure + world \<times> line_buffer" where
  "xsputn_loop sys owner tid buf st =
     (if length buf > 0 then
        if LF \<notin> set buf then append sys owner tid buf st
        else
          let line = takeWhile (\<lambda>c. c \<noteq> LF) buf in
          (case (if line \<noteq> [] then append sys owner tid line st else Inr st) of
             Inl e \<Rightarrow> Inl e
           | Inr st1 \<Rightarrow>
               xsputn_loop sys owner tid (drop (length line + 1) buf) (flush sys owner st1))
      else Inr st)"
  by pat_completeness auto
termination
  by (relation "measure (\<lambda>(sys, owner, tid, buf, st). length buf)") auto

declare xsputn_loop.simps [simp del]

text \<open>\<^verbatim>\<open>logger::xsputn\<close>; it returns \<^verbatim>\<open>sz\<close>, the length of its input.\<close>

definition xsputn ::
  "os \<Rightarrow> thread_id \<Rightarrow> string \<Rightarrow> world \<times> logger \<Rightarrow> failure + nat \<times> world \<times> logger" where
  "xsputn sys tid buf = (\<lambda>(w, lg).
     case xsputn_loop sys lg tid buf (w, buffer lg tid) of
       Inl e \<Rightarrow> Inl e
     | Inr (w', lb') \<Rightarrow> Inr (length buf, w', store_buffer tid lb' lg))"

text \<open>
  \<^verbatim>\<open>logger::overflow (int_type c)\<close>. \<^verbatim>\<open>traits_type::eof()\<close> is -1,
  \<^verbatim>\<open>not_eof\<close> of it is 0, and \<^verbatim>\<open>to_char_type\<close> keeps the low eight bits.
\<close>

definition overflow ::
  "os \<Rightarrow> thread_id \<Rightarrow> int \<Rightarrow> world \<times> logger \<Rightarrow> failure + int \<times> world \<times> logger" where
  "overflow sys tid c = (\<lambda>(w, lg).
     if c = - 1 then Inr (0, w, lg)
     else
       let chr = (char_of c :: char) in
       if chr = LF then
         (case flush sys lg (w, buffer lg tid) of
            (w', lb') \<Rightarrow> Inr (c, w', store_buffer tid lb' lg))
       else
         (case append sys lg tid [chr] (w, buffer lg tid) of
            Inl e \<Rightarrow> Inl e
          | Inr (w', lb') \<Rightarrow> Inr (c, w', store_buffer tid lb' lg)))"

text \<open>
  The insertion of a string into \<^verbatim>\<open>std::clog\<close> or \<^verbatim>\<open>std::cerr\<close> reaches the installed
  stream buffer, which has no put area, as one call of \<^verbatim>\<open>xsputn\<close>.
\<close>

definition ostream_write ::
  "os \<Rightarrow> thread_id \<Rightarrow> string \<Rightarrow> world \<times> logger \<Rightarrow> failure + world \<times> logger" where
  "ostream_write sys tid s st =
     (case xsputn sys tid s st of Inl e \<Rightarrow> Inl e | Inr (n, st') \<Rightarrow> Inr st')"

definition close_file :: "raw_handle \<Rightarrow> world \<Rightarrow> world" where
  "close_file h w = w\<lparr>events := events w @ [Close_file h]\<rparr>"

definition lseek_end :: "raw_handle \<Rightarrow> world \<Rightarrow> world" where
  "lseek_end h w = w\<lparr>events := events w @ [Lseek_end h]\<rparr>"

definition create_file :: "os \<Rightarrow> string \<Rightarrow> world \<Rightarrow> raw_handle option \<times> world" where
  "create_file sys filename w =
     (open_file sys filename,
      w\<lparr>events := events w @ [Create_file filename (open_file sys filename)]\<rparr>)"

text \<open>\<^verbatim>\<open>logger::logger (sys::raw_handle console, color_t color = -1)\<close>.\<close>

definition logger_ctor :: "os \<Rightarrow> raw_handle \<Rightarrow> color_t \<Rightarrow> logger" where
  "logger_ctor sys con color =
     \<lparr>m_con = con, m_buffer = (\<lambda>tid. None), m_custom_color = color,
      m_use_color = is_a_tty sys con, m_prepend_time = True, m_opened_file = False\<rparr>"

text \<open>\<^verbatim>\<open>template <typename CharT> bool logger::redirect (const CharT* filename)\<close>.\<close>

definition redirect_filename ::
  "os \<Rightarrow> thread_id \<Rightarrow> string \<Rightarrow> world \<times> logger \<Rightarrow> bool \<times> world \<times> logger" where
  "redirect_filename sys tid filename = (\<lambda>(w, lg).
     case create_file sys filename w of
       (None, w0) \<Rightarrow> (False, w0, lg)
     | (Some file, w0) \<Rightarrow>
         (case flush sys lg (w0, buffer lg tid) of
            (w1, lb1) \<Rightarrow>
              let lg1 = store_buffer tid lb1 lg;
                  w2 = (if m_opened_file lg1 then close_file (m_con lg1) w1 else w1)
              in (True, w2, lg1\<lparr>m_con := file, m_use_color := False, m_opened_file := True\<rparr>)))"

text \<open>\<^verbatim>\<open>void logger::redirect (sys::raw_handle file)\<close> (build without \<^verbatim>\<open>_WIN32\<close>).\<close>

definition redirect_handle ::
  "os \<Rightarrow> thread_id \<Rightarrow> raw_handle \<Rightarrow> world \<times> logger \<Rightarrow> world \<times> logger" where
  "redirect_handle sys tid file = (\<lambda>(w, lg).
     case flush sys lg (w, buffer lg tid) of
       (w1, lb1) \<Rightarrow>
         let lg1 = store_buffer tid lb1 lg;
             w2 = (if m_opened_file lg1 then close_file (m_con lg1) w1 else w1);
             lg2 = lg1\<lparr>m_con := file, m_use_color := is_a_tty sys file, m_opened_file := False\<rparr>
         in (if \<not> m_use_color lg2 then lseek_end file w2 else w2, lg2))"

section \<open>logger.cc: the registry of the two installed stream buffers\<close>

text \<open>
  \<^verbatim>\<open>class logger_init\<close>: the loggers behind \<^verbatim>\<open>std::clog\<close> and \<^verbatim>\<open>std::cerr\<close>, null
  when the error handle was not valid at start. \<open>valid\<close> is the result of
  \<^verbatim>\<open>sys::handle::valid (con) && sys::file_handle::valid (con)\<close>.
\<close>

record logger_init =
  m_clog :: "logger option"
  m_cerr :: "logger option"

definition logger_init_ctor :: "os \<Rightarrow> raw_handle \<Rightarrow> bool \<Rightarrow> logger_init" where
  "logger_init_ctor sys con valid =
     (if \<not> valid then \<lparr>m_clog = None, m_cerr = None\<rparr>
      else \<lparr>m_clog = Some (logger_ctor sys con (fg_white OR fg_bright)),
            m_cerr = Some (logger_ctor sys con (bg_red OR fg_white OR fg_bright))\<rparr>)"

definition set_clog_color :: "color_t \<Rightarrow> logger_init \<Rightarrow> logger_init" where
  "set_clog_color color r =
     (case m_clog r of None \<Rightarrow> r | Some lg \<Rightarrow> r\<lparr>m_clog := Some (set_color color lg)\<rparr>)"

definition set_cerr_color :: "color_t \<Rightarrow> logger_init \<Rightarrow> logger_init" where
  "set_cerr_color color r =
     (case m_cerr r of None \<Rightarrow> r | Some lg \<Rightarrow> r\<lparr>m_cerr := Some (set_color color lg)\<rparr>)"

section \<open>logger.cc: the flush of the Win32 build\<close>

text \<open>
  The functions between \<^verbatim>\<open>#ifdef _WIN32\<close> and \<^verbatim>\<open>#else\<close> that the flush consists of.
  \<^verbatim>\<open>GetConsoleScreenBufferInfo\<close> succeeds on the handles of console screen buffers and
  reports the current attribute word; \<^verbatim>\<open>SetConsoleTextAttribute\<close> replaces it. The
  model runs one thread, for which taking and releasing \<^verbatim>\<open>g_console_mutex\<close> changes
  nothing.
\<close>

definition SetConsoleTextAttribute :: "raw_handle \<Rightarrow> color_t \<Rightarrow> world \<Rightarrow> world" where
  "SetConsoleTextAttribute h attr w =
     w\<lparr>events := events w @ [Set_console_text_attribute h attr],
       console := (if console w h = None then console w else (console w)(h \<mapsto> attr))\<rparr>"

definition set_custom_color_win32 ::
  "logger \<Rightarrow> world \<times> line_buffer \<Rightarrow> world \<times> line_buffer" where
  "set_custom_color_win32 owner = (\<lambda>(w, lb).
     let custom_color = get_color owner in
     case (if no_color \<noteq> custom_color then console w (m_con owner) else None) of
       Some wAttributes \<Rightarrow>
         (SetConsoleTextAttribute (m_con owner) custom_color w,
          lb\<lparr>m_default_color := wAttributes\<rparr>)
     | None \<Rightarrow> (w, lb\<lparr>m_default_color := no_color\<rparr>))"

text \<open>
  \<^verbatim>\<open>line_buffer::write_to_console\<close>: text of bytes up to 0x7f goes out as it is; other
  text is converted to the console's code page, and goes out unconverted when a conversion
  fails. Every fallback writes \<open>m_text\<close>.
\<close>

definition write_to_console ::
  "os \<Rightarrow> logger \<Rightarrow> string \<Rightarrow> world \<times> line_buffer \<Rightarrow> world" where
  "write_to_console sys owner text = (\<lambda>(w, lb).
     if list_all (\<lambda>c. \<not> (of_char c :: nat) > 0x7f) text
     then write_line sys owner (m_text lb) w
     else
       (case to_wide sys text of
          None \<Rightarrow> write_line sys owner (m_text lb) w
        | Some wbuf \<Rightarrow>
            (case to_console_cp sys wbuf of
               None \<Rightarrow> write_line sys owner (m_text lb) w
             | Some cbuf \<Rightarrow> write_line sys owner cbuf w)))"

definition append_crlf_win32 :: "line_buffer \<Rightarrow> line_buffer" where
  "append_crlf_win32 lb = lb\<lparr>m_text := m_text lb @ [CR, LF]\<rparr>"

definition flush_win32 ::
  "os \<Rightarrow> logger \<Rightarrow> world \<times> line_buffer \<Rightarrow> world \<times> line_buffer" where
  "flush_win32 sys owner = (\<lambda>(w, lb).
     if m_use_color owner then
       (case set_custom_color_win32 owner (w, lb) of
          (w1, lb1) \<Rightarrow>
            let w2 = (if m_convert_cp lb1 then write_to_console sys owner (m_text lb1) (w1, lb1)
                      else write_line sys owner (m_text lb1) w1);
                w3 = (if m_default_color lb1 \<noteq> no_color
                      then SetConsoleTextAttribute (m_con owner) (m_default_color lb1) w2
                      else w2);
                w4 = write_line sys owner [CR, LF] w3
            in (w4, lb1\<lparr>m_text := []\<rparr>))
     else
       let lb1 = append_crlf_win32 lb;
           w1 = write_line sys owner (m_text lb1) w
       in (w1, lb1\<lparr>m_text := []\<rparr>))"

section \<open>Concrete inputs\<close>

text \<open>
  An environment whose clock always reads 12:34:56.789 in thread 0xbeef, whose writes
  succeed and whose handles are not terminals; and the world before any call.
\<close>

definition os0 :: os where
  "os0 = \<lparr>NDEBUG = False,
          formatted_time = (\<lambda>n tid. Some ''12:34:56.789 [0000beef] ''),
          write_ok = (\<lambda>n. True),
          open_file = (\<lambda>path. None),
          is_a_tty = (\<lambda>h. False),
          to_wide = (\<lambda>text. None),
          to_console_cp = (\<lambda>wbuf. None)\<rparr>"

definition world0 :: world where
  "world0 = \<lparr>events = [], clock = 0, console = (\<lambda>h. None)\<rparr>"

text \<open>The same environment with every handle a terminal.\<close>

definition os_tty :: os where
  "os_tty = os0\<lparr>is_a_tty := (\<lambda>h. True)\<rparr>"

section \<open>The parts of a written line\<close>

text \<open>
  What \<^verbatim>\<open>set_custom_color\<close> adds to the text of a line buffer, what \<^verbatim>\<open>append_time\<close>
  adds at the \<open>n\<close>-th reading of the clock (the color sequence, when color is in use,
  and the timestamp), and the sequence that \<^verbatim>\<open>flush\<close> puts behind a colored line.
\<close>

definition color_sequence :: "logger \<Rightarrow> string" where
  "color_sequence owner = m_text (set_custom_color owner new_line_buffer)"

definition time_prefix :: "os \<Rightarrow> logger \<Rightarrow> thread_id \<Rightarrow> nat \<Rightarrow> string" where
  "time_prefix sys owner tid n =
     m_text (snd (append_time sys owner tid (world0\<lparr>clock := n\<rparr>, new_line_buffer)))"

definition reset_sequence :: string where
  "reset_sequence = [ESC, CHR ''['', CHR ''0'', CHR ''m'']"

text \<open>
  The timestamp alone: what \<^verbatim>\<open>append_time\<close> appends from \<^verbatim>\<open>cvtbuf\<close> at the \<open>n\<close>-th
  reading of the clock.
\<close>

definition timestamp :: "os \<Rightarrow> thread_id \<Rightarrow> nat \<Rightarrow> string" where
  "timestamp sys tid n =
     (case formatted_time sys n tid of
        None \<Rightarrow> []
      | Some s \<Rightarrow> take (if length s > 32 then 32 else length s)
                    (if length s < 32 then s else take 31 s @ [NUL]))"

text \<open>
  A line as \<^verbatim>\<open>append\<close> flushes it consists of a prefix, a chunk of the input and a
  suffix. The prefix is what \<^verbatim>\<open>append_time\<close> produced at some reading of the clock, or
  nothing when the time is not prepended; the suffix is the newline, behind the reset
  sequence when the buffer's \<open>m_default_color\<close> is a color.
\<close>

definition line_prefix :: "os \<Rightarrow> logger \<Rightarrow> thread_id \<Rightarrow> nat \<Rightarrow> string" where
  "line_prefix sys owner tid n =
     (if m_prepend_time owner then time_prefix sys owner tid n else [])"

definition line_suffix :: "color_t \<Rightarrow> string" where
  "line_suffix dc = (if dc \<noteq> no_color then reset_sequence else []) @ [LF]"

text \<open>
  The lines made of the given chunks, the first with the prefix of reading \<open>n\<close>; the
  calls that write given lines one after the other, the first after \<open>n\<close> earlier calls;
  and the property that every chunk fills its line up to \<open>s_limit\<close>.
\<close>

definition flushed_lines ::
  "os \<Rightarrow> logger \<Rightarrow> thread_id \<Rightarrow> color_t \<Rightarrow> nat \<Rightarrow> string list \<Rightarrow> string list" where
  "flushed_lines sys owner tid dc n chunks =
     map (\<lambda>(k, c). line_prefix sys owner tid k @ c @ line_suffix dc) (enumerate n chunks)"

definition write_calls :: "os \<Rightarrow> raw_handle \<Rightarrow> nat \<Rightarrow> string list \<Rightarrow> event list" where
  "write_calls sys h n lines =
     map (\<lambda>(i, l). Write_file h l (write_ok sys i)) (enumerate n lines)"

definition full_lines :: "os \<Rightarrow> logger \<Rightarrow> thread_id \<Rightarrow> nat \<Rightarrow> string list \<Rightarrow> bool" where
  "full_lines sys owner tid n chunks =
     list_all (\<lambda>(k, c). length (line_prefix sys owner tid k @ c) = s_limit) (enumerate n chunks)"

text \<open>All of the calls are writes to the handle \<open>h\<close>.\<close>

definition writes_to :: "raw_handle \<Rightarrow> event list \<Rightarrow> bool" where
  "writes_to h es =
     list_all (\<lambda>e. case e of Write_file h' s ok \<Rightarrow> h' = h | _ \<Rightarrow> False) es"

text \<open>The bytes handed to \<^verbatim>\<open>sys::write_file\<close> for the handle \<open>h\<close>, in order.\<close>

fun bytes_sent :: "raw_handle \<Rightarrow> event list \<Rightarrow> string" where
  "bytes_sent h [] = []"
| "bytes_sent h (Write_file h' s ok # es) = (if h' = h then s else []) @ bytes_sent h es"
| "bytes_sent h (e # es) = bytes_sent h es"

section \<open>The color sequence of the ANSI build\<close>

lemma below_eight:
  "(k::nat) < 8 \<Longrightarrow> k = 0 \<or> k = 1 \<or> k = 2 \<or> k = 3 \<or> k = 4 \<or> k = 5 \<or> k = 6 \<or> k = 7"
  by arith

lemma word_of_unat: "unat (x::16 word) = k \<Longrightarrow> x = of_nat k"
  by auto

lemma three_bits:
  "(c::16 word) AND 7 = 0 \<or> c AND 7 = 1 \<or> c AND 7 = 2 \<or> c AND 7 = 3 \<or>
   c AND 7 = 4 \<or> c AND 7 = 5 \<or> c AND 7 = 6 \<or> c AND 7 = 7"
proof -
  have "c AND 7 \<le> 7" by (rule word_and_le1)
  then have "unat (c AND 7) < 8" by (simp add: word_le_nat_alt)
  from below_eight[OF this] show ?thesis
    by (elim disjE) (drule word_of_unat, simp)+
qed

lemma three_bits_high:
  "(c::16 word) AND 0x70 = 0 \<or> c AND 0x70 = 0x10 \<or> c AND 0x70 = 0x20 \<or>
   c AND 0x70 = 0x30 \<or> c AND 0x70 = 0x40 \<or> c AND 0x70 = 0x50 \<or>
   c AND 0x70 = 0x60 \<or> c AND 0x70 = 0x70"
proof -
  have e70: "(0x70::16 word) = push_bit 4 (mask 3)" by (simp add: mask_eq_exp_minus_1)
  have e7: "(7::16 word) = mask 3" by (simp add: mask_eq_exp_minus_1)
  have "c AND 0x70 = push_bit 4 (drop_bit 4 c AND 7)"
    unfolding e70 e7 by (rule bit_eqI) (auto simp: bit_simps)
  with three_bits[of "drop_bit 4 c"] show ?thesis
    by (elim disjE) simp_all
qed

lemmas color_defs = fg_color_def fg_white_def fg_black_def fg_red_def fg_green_def
  fg_yellow_def fg_blue_def fg_magenta_def fg_cyan_def bg_color_def bg_white_def bg_black_def
  bg_red_def bg_green_def bg_yellow_def bg_blue_def bg_magenta_def bg_cyan_def

text \<open>Both \<^verbatim>\<open>switch\<close> statements name all eight values of their three bits.\<close>

lemma foreground_Some: "\<exists>f. foreground c = Some f \<and> length f = 2"
  using three_bits[of c]
  by (auto simp: foreground_def Let_def color_defs)

lemma background_Some: "\<exists>b. background c = Some b \<and> length b = 2"
  using three_bits_high[of c]
  by (auto simp: background_def Let_def color_defs)

lemma set_custom_color_eq:
  assumes "foreground (get_color owner) = Some f" and "background (get_color owner) = Some b"
    and "get_color owner \<noteq> no_color"
  shows "set_custom_color owner lb =
     lb\<lparr>m_text := m_text lb @ [ESC, CHR ''[''] @ f @ '';'' @ b @
            (if get_color owner AND (fg_bright OR bg_bright) \<noteq> 0 then '';1'' else []) @ ''m'',
        m_default_color := get_color owner\<rparr>"
  using assms foreground_length[OF assms(1)] background_length[OF assms(2)]
  by (simp add: set_custom_color_def Let_def)

text \<open>
  Claim C3, as the code has it. Every color other than the value "no custom color" is
  rendered as an escape sequence: ESC [, a foreground code, a semicolon, a background
  code, then ;1 when one of the two bright bits is set, then m; and that color is recorded
  as the one to reset. Only the value "no custom color" adds no sequence. No color is
  without a code, since black has the codes 30 and 40.
\<close>

theorem set_custom_color_renders:
  "\<exists>f b. foreground (get_color owner) = Some f \<and> length f = 2 \<and>
         background (get_color owner) = Some b \<and> length b = 2 \<and>
     set_custom_color owner lb =
       (if get_color owner = no_color then lb\<lparr>m_default_color := no_color\<rparr>
        else lb\<lparr>m_text := m_text lb @ [ESC, CHR ''[''] @ f @ '';'' @ b @
                 (if get_color owner AND (fg_bright OR bg_bright) \<noteq> 0
                  then '';1'' else []) @ ''m'',
               m_default_color := get_color owner\<rparr>)"
proof -
  obtain f where f: "foreground (get_color owner) = Some f" "length f = 2"
    using foreground_Some by blast
  obtain b where b: "background (get_color owner) = Some b" "length b = 2"
    using background_Some by blast
  show ?thesis
  proof (cases "get_color owner = no_color")
    case True
    with f b show ?thesis by (simp add: set_custom_color_def)
  next
    case False
    with f b set_custom_color_eq[OF f(1) b(1) False, of lb] show ?thesis by simp
  qed
qed

text \<open>
  Claim C3 as stated fails for black on black without a bright bit: the color is not the
  value "no custom color", its bright bits are clear, and the buffer receives the sequence
  ESC [30;40m, where the value "no custom color" leaves the buffer as it was.
\<close>

theorem black_on_black_counterexample:
  "fg_black OR bg_black \<noteq> no_color \<and>
   (fg_black OR bg_black) AND (fg_bright OR bg_bright) = 0 \<and>
   set_custom_color (logger_ctor os0 2 (fg_black OR bg_black)) new_line_buffer =
     new_line_buffer\<lparr>m_text := ESC # ''[30;40m'', m_default_color := fg_black OR bg_black\<rparr> \<and>
   set_custom_color (logger_ctor os0 2 no_color) new_line_buffer = new_line_buffer"
  by (simp add: set_custom_color_def Let_def logger_ctor_def get_color_def foreground_def
        background_def color_defs no_color_def fg_bright_def bg_bright_def new_line_buffer_def)

section \<open>Flushing\<close>

lemma of_char_LF: "(of_char LF :: int) = 10"
  by (simp add: LF_def)

lemma char_of_10: "char_of (10 :: int) = LF"
  using char_of_char[of LF, where ?'a = int] by (simp add: of_char_LF)

lemma m_text_update_same: "m_text lb = t \<Longrightarrow> lb\<lparr>m_text := t\<rparr> = lb"
  by (cases lb) simp

text \<open>
  Claim C6. A flush leaves the text of the line buffer empty, in the ANSI build (where
  nothing else of the buffer changes) and in the Win32 build, and the buffer it leaves is
  the same whether the writes fail or succeed: the result of the write is not looked at.
\<close>

theorem flush_clears_text:
  "snd (flush sys owner (w, lb)) = lb\<lparr>m_text := []\<rparr> \<and>
   m_text (snd (flush_win32 sys owner (w, lb))) = [] \<and>
   snd (flush (sys\<lparr>write_ok := (\<lambda>n. False)\<rparr>) owner (w, lb)) =
     snd (flush (sys\<lparr>write_ok := (\<lambda>n. True)\<rparr>) owner (w, lb)) \<and>
   snd (flush_win32 (sys\<lparr>write_ok := (\<lambda>n. False)\<rparr>) owner (w, lb)) =
     snd (flush_win32 (sys\<lparr>write_ok := (\<lambda>n. True)\<rparr>) owner (w, lb))"
  by (simp add: flush_def flush_win32_def Let_def append_crlf_def append_crlf_win32_def
        set_custom_color_win32_def split: prod.splits option.splits)

lemma bytes_sent_append [simp]:
  "bytes_sent h (es @ es') = bytes_sent h es @ bytes_sent h es'"
  by (induction h es rule: bytes_sent.induct) simp_all

lemma write_to_console_empty:
  "m_text lb = [] \<Longrightarrow> write_to_console sys owner [] (w, lb) = write_line sys owner [] w"
  by (simp add: write_to_console_def)

lemma flush_win32_empty:
  assumes "m_text lb = []"
  shows "\<exists>es. events (fst (flush_win32 sys owner (w, lb))) = events w @ es \<and>
              bytes_sent (m_con owner) es = [CR, LF]"
proof (cases "m_use_color owner")
  case False
  with assms show ?thesis
    by (simp add: flush_win32_def Let_def append_crlf_win32_def write_line_def)
next
  case True
  obtain w1 lb1 where s: "set_custom_color_win32 owner (w, lb) = (w1, lb1)"
    by (cases "set_custom_color_win32 owner (w, lb)")
  then have t: "m_text lb1 = []" and
    e1: "\<exists>es. events w1 = events w @ es \<and> bytes_sent (m_con owner) es = []"
    using assms
    by (auto simp: set_custom_color_win32_def Let_def SetConsoleTextAttribute_def
          split: option.splits if_splits)
  then obtain es1 where es1: "events w1 = events w @ es1" "bytes_sent (m_con owner) es1 = []"
    by blast
  show ?thesis
    using True s t es1
    by (simp add: flush_win32_def Let_def write_to_console_empty write_line_def
          SetConsoleTextAttribute_def)
qed

text \<open>
  Claim C9. When the calling thread's line buffer holds no text, a flush, and so the
  newline character arriving through \<^verbatim>\<open>overflow\<close>, makes exactly one write, of the line
  terminator alone, and leaves the buffer as it was. In the Win32 build the bytes handed
  to the handle by the flush of a buffer without text are the two bytes of its line
  terminator.
\<close>

theorem empty_flush_writes_terminator:
  assumes "m_text (buffer lg tid) = []"
  shows "flush sys lg (w, buffer lg tid) =
           (w\<lparr>events := events w @
                 [Write_file (m_con lg) [LF] (write_ok sys (length (events w)))]\<rparr>,
            buffer lg tid) \<and>
         overflow sys tid (of_char LF) (w, lg) =
           Inr (of_char LF,
                w\<lparr>events := events w @
                      [Write_file (m_con lg) [LF] (write_ok sys (length (events w)))]\<rparr>,
                store_buffer tid (buffer lg tid) lg) \<and>
         (\<exists>es. events (fst (flush_win32 sys lg (w, buffer lg tid))) = events w @ es \<and>
               bytes_sent (m_con lg) es = [CR, LF])"
  using assms flush_win32_empty[OF assms, of sys lg w]
  by (simp add: flush_def overflow_def Let_def append_crlf_def write_line_def of_char_LF
        char_of_10 m_text_update_same)

text \<open>The same on a new logger on handle 2: the one call is the write of a newline.\<close>

theorem empty_flush_writes_terminator_witness:
  "m_text (buffer (logger_ctor os0 2 no_color) 1) = [] \<and>
   overflow os0 1 10 (world0, logger_ctor os0 2 no_color) =
     Inr (10, world0\<lparr>events := [Write_file 2 [LF] True]\<rparr>,
          store_buffer 1 new_line_buffer (logger_ctor os0 2 no_color))"
  using empty_flush_writes_terminator[of "logger_ctor os0 2 no_color" 1 os0 world0]
  by (simp add: buffer_def logger_ctor_def new_line_buffer_def world0_def os0_def of_char_LF)

section \<open>What one call adds to the buffer and to the calls\<close>

lemma set_custom_color_append:
  "set_custom_color owner lb =
     lb\<lparr>m_text := m_text lb @ color_sequence owner, m_default_color := get_color owner\<rparr>"
proof -
  obtain f where f: "foreground (get_color owner) = Some f"
    using foreground_Some by blast
  obtain b where b: "background (get_color owner) = Some b"
    using background_Some by blast
  show ?thesis
  proof (cases "get_color owner = no_color")
    case True
    then show ?thesis
      by (simp add: color_sequence_def set_custom_color_def new_line_buffer_def)
  next
    case False
    show ?thesis
      unfolding color_sequence_def set_custom_color_eq[OF f b False]
      by (simp add: new_line_buffer_def)
  qed
qed

lemma color_sequence_length: "length (color_sequence owner) \<le> 10"
  using set_custom_color_length[of owner new_line_buffer]
  by (simp add: color_sequence_def new_line_buffer_def)

lemma append_time_eq:
  "append_time sys owner tid (w, lb) =
     (w\<lparr>clock := clock w + 1\<rparr>,
      lb\<lparr>m_text := m_text lb @ time_prefix sys owner tid (clock w),
         m_default_color := (if m_use_color owner then get_color owner else m_default_color lb)\<rparr>)"
  by (simp add: append_time_def time_prefix_def Let_def set_custom_color_append world0_def new_line_buffer_def
       split: option.splits)

lemma time_prefix_length: "length (time_prefix sys owner tid n) \<le> 42"
  using append_time_length[of sys owner tid "world0\<lparr>clock := n\<rparr>" new_line_buffer]
  by (cases "append_time sys owner tid (world0\<lparr>clock := n\<rparr>, new_line_buffer)")
     (simp add: time_prefix_def new_line_buffer_def)

lemma flush_eq:
  "flush sys owner (w, lb) =
     (w\<lparr>events := events w @
          [Write_file (m_con owner)
             (m_text lb @
              (if m_text lb \<noteq> [] \<and> m_default_color lb \<noteq> no_color then reset_sequence else []) @
              [LF])
             (write_ok sys (length (events w)))]\<rparr>,
      lb\<lparr>m_text := []\<rparr>)"
  by (simp add: flush_def Let_def append_crlf_def write_line_def reset_sequence_def)


lemma append_loop_fits:
  "length buf + length (m_text lb) \<le> s_limit \<Longrightarrow>
     append_loop sys owner tid buf (w, lb) = Inr (w, lb\<lparr>m_text := m_text lb @ buf\<rparr>)"
  by (simp add: append_loop.simps)

lemma append_loop_bound:
  "append_loop sys owner tid buf st = Inr (w', lb') \<Longrightarrow> length (m_text lb') \<le> s_limit"
proof (induction sys owner tid buf st rule: append_loop.induct)
  case (1 sys owner tid buf w lb)
  show ?case
  proof (cases "length buf + length (m_text lb) > s_limit")
    case False
    with "1.prems" show ?thesis
      by (auto simp: append_loop.simps split: if_splits)
  next
    case True
    with "1.prems" have na: "\<not> (\<not> NDEBUG sys \<and> \<not> length (m_text lb) < s_limit)"
      by (auto simp: append_loop.simps split: if_splits)
    obtain buf' st' where b: "append_body sys owner tid buf (w, lb) = (buf', st')"
      by (cases "append_body sys owner tid buf (w, lb)")
    from "1.prems" True na b have "append_loop sys owner tid buf' st' = Inr (w', lb')"
      by (simp add: append_loop.simps[of sys owner tid buf])
    then show ?thesis by (rule "1.IH"[OF True na b[symmetric]])
  qed
qed

lemma append_loop_returns:
  "NDEBUG sys \<or> length (m_text lb) < s_limit \<or> length buf + length (m_text lb) \<le> s_limit
     \<Longrightarrow> \<exists>w' lb'. append_loop sys owner tid buf (w, lb) = Inr (w', lb')"
proof (induction sys owner tid buf "(w, lb)" arbitrary: w lb rule: append_loop.induct)
  case (1 sys owner tid buf w lb)
  show ?case
  proof (cases "length buf + length (m_text lb) > s_limit")
    case False
    then show ?thesis by (simp add: append_loop.simps)
  next
    case True
    with "1.prems" have na: "\<not> (\<not> NDEBUG sys \<and> \<not> length (m_text lb) < s_limit)"
      by auto
    obtain buf' w1 lb1 where b: "append_body sys owner tid buf (w, lb) = (buf', w1, lb1)"
      by (cases "append_body sys owner tid buf (w, lb)") auto
    have "length (m_text lb1) < s_limit" using append_body_measure(1)[OF b True] .
    then have "\<exists>w' lb'. append_loop sys owner tid buf' (w1, lb1) = Inr (w', lb')"
      using "1.hyps"[OF True na b[symmetric]] by blast
    with True na b show ?thesis
      by (simp add: append_loop.simps[of sys owner tid buf])
  qed
qed

lemma append_fresh_line:
  assumes "m_text lb = []" and "m_prepend_time owner"
    and "length buf + length (time_prefix sys owner tid (clock w)) \<le> s_limit"
  shows "append sys owner tid buf (w, lb) =
     Inr (w\<lparr>clock := clock w + 1\<rparr>,
          lb\<lparr>m_text := time_prefix sys owner tid (clock w) @ buf,
             m_default_color := (if m_use_color owner then get_color owner else m_default_color lb)\<rparr>)"
  using assms by (simp add: append_def append_time_eq append_loop_fits)

lemma append_more:
  assumes "m_text lb \<noteq> []" and "length buf + length (m_text lb) \<le> s_limit"
  shows "append sys owner tid buf (w, lb) = Inr (w, lb\<lparr>m_text := m_text lb @ buf\<rparr>)"
  using assms by (simp add: append_def append_loop_fits)

lemma xsputn_loop_Nil: "xsputn_loop sys owner tid [] st = Inr st"
  by (simp add: xsputn_loop.simps)

lemma xsputn_loop_no_newline:
  "LF \<notin> set buf \<Longrightarrow> buf \<noteq> [] \<Longrightarrow> xsputn_loop sys owner tid buf st = append sys owner tid buf st"
  by (simp add: xsputn_loop.simps[of sys owner tid buf])

lemma xsputn_loop_line:
  assumes "LF \<notin> set line"
  shows "xsputn_loop sys owner tid (line @ LF # rest) st =
     (case (if line \<noteq> [] then append sys owner tid line st else Inr st) of
        Inl e \<Rightarrow> Inl e
      | Inr st1 \<Rightarrow> xsputn_loop sys owner tid rest (flush sys owner st1))"
proof -
  have "takeWhile (\<lambda>c. c \<noteq> LF) (line @ LF # rest) = line"
    using assms by (induction line) auto
  moreover have "drop (length line + 1) (line @ LF # rest) = rest"
    by simp
  ultimately show ?thesis
    by (simp add: xsputn_loop.simps[of sys owner tid "line @ LF # rest"] Let_def
          split: sum.splits)
qed

lemma store_buffer_fields [simp]:
  "m_con (store_buffer tid lb lg) = m_con lg"
  "m_use_color (store_buffer tid lb lg) = m_use_color lg"
  "m_prepend_time (store_buffer tid lb lg) = m_prepend_time lg"
  "m_opened_file (store_buffer tid lb lg) = m_opened_file lg"
  "m_custom_color (store_buffer tid lb lg) = m_custom_color lg"
  "buffer (store_buffer tid lb lg) tid = lb"
  by (simp_all add: store_buffer_def buffer_def)

text \<open>
  Claim C10. Whenever \<^verbatim>\<open>append\<close> returns, the text of the line buffer, with the color
  sequence and the timestamp it may begin with, is at most \<open>s_limit\<close> = 1000 bytes long,
  whatever the buffer held before. And \<^verbatim>\<open>append\<close> does return when \<^verbatim>\<open>assert\<close> is
  compiled out, when the buffer held fewer than 1000 bytes, or when the input fits; the
  one other case is a buffer of at least 1000 bytes receiving input that does not fit,
  where the \<^verbatim>\<open>assert\<close> of the loop ends the program.
\<close>

theorem append_within_limit:
  "(\<forall>w' lb'. append sys owner tid buf (w, lb) = Inr (w', lb') \<longrightarrow> length (m_text lb') \<le> s_limit) \<and>
   (NDEBUG sys \<or> length (m_text lb) < s_limit \<or> length buf + length (m_text lb) \<le> s_limit \<longrightarrow>
      (\<exists>w' lb'. append sys owner tid buf (w, lb) = Inr (w', lb')))"
proof (intro conjI allI impI)
  fix w' lb'
  assume "append sys owner tid buf (w, lb) = Inr (w', lb')"
  then show "length (m_text lb') \<le> s_limit"
    by (auto simp: append_def dest: append_loop_bound split: if_splits)
next
  assume a: "NDEBUG sys \<or> length (m_text lb) < s_limit \<or> length buf + length (m_text lb) \<le> s_limit"
  show "\<exists>w' lb'. append sys owner tid buf (w, lb) = Inr (w', lb')"
  proof (cases "m_prepend_time owner \<and> m_text lb = []")
    case True
    have "length (time_prefix sys owner tid (clock w)) < s_limit"
      using time_prefix_length[of sys owner tid "clock w"] by (simp add: s_limit_def)
    then show ?thesis
      using True append_loop_returns[of sys "lb\<lparr>m_text := time_prefix sys owner tid (clock w),
         m_default_color := (if m_use_color owner then get_color owner else m_default_color lb)\<rparr>" buf owner tid]
      by (simp add: append_def append_time_eq)
  next
    case False
    with a show ?thesis
      using append_loop_returns[of sys lb buf owner tid w]
      by (auto simp add: append_def)
  qed
qed


text \<open>
  Claim C7. On a logger that prepends the time and whose line buffer for the calling
  thread holds no text, \<^verbatim>\<open>xsputn\<close> of "ab" writes nothing, and \<^verbatim>\<open>xsputn\<close> of "c" and a
  newline then makes exactly one write: the prefix that \<^verbatim>\<open>append_time\<close> produced when "ab"
  arrived, the text "abc", the reset sequence if the line is colored, and the newline. The
  buffer holds no text afterwards.
\<close>

theorem two_appends_one_line:
  assumes "m_text (buffer lg tid) = []" and "m_prepend_time lg"
  shows "\<exists>w1 lg1 w2 lg2.
     xsputn sys tid ''ab'' (w, lg) = Inr (2, w1, lg1) \<and>
     xsputn sys tid (''c'' @ [LF]) (w1, lg1) = Inr (2, w2, lg2) \<and>
     events w1 = events w \<and>
     events w2 = events w @
       [Write_file (m_con lg)
          (time_prefix sys lg tid (clock w) @ ''abc'' @
           (if (if m_use_color lg then get_color lg else m_default_color (buffer lg tid)) \<noteq> no_color
            then reset_sequence else []) @ [LF])
          (write_ok sys (length (events w)))] \<and>
     m_text (buffer lg2 tid) = []"
proof -
  let ?lb = "buffer lg tid"
  let ?dc = "if m_use_color lg then get_color lg else m_default_color ?lb"
  let ?p = "time_prefix sys lg tid (clock w)"
  let ?lb1 = "?lb\<lparr>m_text := ?p @ ''ab'', m_default_color := ?dc\<rparr>"
  let ?w1 = "w\<lparr>clock := clock w + 1\<rparr>"
  let ?lg1 = "store_buffer tid ?lb1 lg"
  have p: "length ?p \<le> 42" by (rule time_prefix_length)
  have nl: "LF \<notin> set ''ab''" "LF \<notin> set ''c''" by (simp_all add: LF_def)
  have a1: "append sys lg tid ''ab'' (w, ?lb) = Inr (?w1, ?lb1)"
    using assms p by (subst append_fresh_line) (simp_all add: s_limit_def)
  have x1: "xsputn sys tid ''ab'' (w, lg) = Inr (2, ?w1, ?lg1)"
    using nl a1 by (simp add: xsputn_def xsputn_loop_no_newline)
  have a2: "append sys ?lg1 tid ''c'' (?w1, ?lb1) = Inr (?w1, ?lb1\<lparr>m_text := ?p @ ''abc''\<rparr>)"
    using p by (subst append_more) (simp_all add: s_limit_def)
  have x2: "xsputn_loop sys ?lg1 tid (''c'' @ [LF]) (?w1, ?lb1) =
      Inr (flush sys ?lg1 (?w1, ?lb1\<lparr>m_text := ?p @ ''abc''\<rparr>))"
    using xsputn_loop_line[OF nl(2), of sys ?lg1 tid "[]" "(?w1, ?lb1)"] a2
    by (simp add: xsputn_loop_Nil)
  show ?thesis
    using x1 x2
    by (simp add: xsputn_def flush_eq)
qed

section \<open>Evaluation on the concrete inputs\<close>

lemma logger_ctor_fields [simp]:
  "m_con (logger_ctor sys h c) = h"
  "m_use_color (logger_ctor sys h c) = is_a_tty sys h"
  "m_prepend_time (logger_ctor sys h c)"
  "\<not> m_opened_file (logger_ctor sys h c)"
  "get_color (logger_ctor sys h c) = c"
  "buffer (logger_ctor sys h c) tid = new_line_buffer"
  by (simp_all add: logger_ctor_def get_color_def buffer_def)

lemma os0_fields [simp]:
  "\<not> NDEBUG os0" "write_ok os0 n" "\<not> is_a_tty os0 h" "open_file os0 path = None"
  "\<not> NDEBUG os_tty" "write_ok os_tty n" "is_a_tty os_tty h" "open_file os_tty path = None"
  by (simp_all add: os0_def os_tty_def)

lemma world0_fields [simp]: "events world0 = []" "clock world0 = 0" "console world0 h = None"
  by (simp_all add: world0_def)

lemma new_line_buffer_fields [simp]:
  "m_text new_line_buffer = []" "m_default_color new_line_buffer = no_color"
  by (simp_all add: new_line_buffer_def)

lemma set_color_fields [simp]:
  "m_con (set_color attr lg) = m_con lg"
  "m_use_color (set_color attr lg) = m_use_color lg"
  "m_prepend_time (set_color attr lg) = m_prepend_time lg"
  "m_opened_file (set_color attr lg) = m_opened_file lg"
  "get_color (set_color attr lg) = attr"
  "buffer (set_color attr lg) tid = buffer lg tid"
  by (simp_all add: set_color_def get_color_def buffer_def)

lemma EXT_colors_set [simp]: "EXT_LOG_COLOR \<noteq> no_color" "EXT_ERR_COLOR \<noteq> no_color"
  by (simp_all add: EXT_LOG_COLOR_def EXT_ERR_COLOR_def no_color_def fg_white_def fg_bright_def
        bg_red_def)

lemma time_prefix_eq:
  "time_prefix sys owner tid n =
     (if m_use_color owner then color_sequence owner else []) @ timestamp sys tid n"
  by (simp add: time_prefix_def timestamp_def append_time_def Let_def set_custom_color_append
        split: option.splits)

lemma timestamp_os0 [simp]:
  "timestamp os0 tid n = ''12:34:56.789 [0000beef] ''"
  "timestamp os_tty tid n = ''12:34:56.789 [0000beef] ''"
  by (simp_all add: timestamp_def os_tty_def os0_def)

lemma color_sequence_log:
  "color_sequence (logger_ctor sys h EXT_LOG_COLOR) = ESC # ''[37;40;1m''"
  by (simp add: color_sequence_def set_custom_color_def Let_def logger_ctor_def get_color_def
        foreground_def background_def color_defs no_color_def fg_bright_def bg_bright_def
        new_line_buffer_def EXT_LOG_COLOR_def)

lemma color_sequence_err:
  "color_sequence (logger_ctor sys h EXT_ERR_COLOR) = ESC # ''[37;41;1m''"
  by (simp add: color_sequence_def set_custom_color_def Let_def logger_ctor_def get_color_def
        foreground_def background_def color_defs no_color_def fg_bright_def bg_bright_def
        new_line_buffer_def EXT_ERR_COLOR_def)

lemma xsputn_one_line:
  assumes "m_text (buffer lg tid) = []" and "m_prepend_time lg" and "LF \<notin> set line"
    and "line \<noteq> []" and "length line + 42 \<le> s_limit"
  shows "xsputn sys tid (line @ [LF]) (w, lg) =
     Inr (length line + 1,
          w\<lparr>clock := clock w + 1,
            events := events w @
              [Write_file (m_con lg)
                 (time_prefix sys lg tid (clock w) @ line @
                  (if (if m_use_color lg then get_color lg else m_default_color (buffer lg tid))
                      \<noteq> no_color
                   then reset_sequence else []) @ [LF])
                 (write_ok sys (length (events w)))]\<rparr>,
          store_buffer tid
            ((buffer lg tid)\<lparr>m_default_color :=
               (if m_use_color lg then get_color lg else m_default_color (buffer lg tid)),
               m_text := []\<rparr>) lg)"
proof -
  have "length line + length (time_prefix sys lg tid (clock w)) \<le> s_limit"
    using time_prefix_length[of sys lg tid "clock w"] assms(5) by simp
  then show ?thesis
    using assms
    by (simp add: xsputn_def xsputn_loop_line xsputn_loop_Nil append_fresh_line flush_eq)
qed

lemma xsputn_fresh_text:
  assumes "m_text (buffer lg tid) = []" and "m_prepend_time lg" and "LF \<notin> set line"
    and "line \<noteq> []" and "length line + 42 \<le> s_limit"
  shows "xsputn sys tid line (w, lg) =
     Inr (length line, w\<lparr>clock := clock w + 1\<rparr>,
          store_buffer tid
            ((buffer lg tid)\<lparr>m_text := time_prefix sys lg tid (clock w) @ line,
               m_default_color :=
                 (if m_use_color lg then get_color lg else m_default_color (buffer lg tid))\<rparr>) lg)"
proof -
  have "length line + length (time_prefix sys lg tid (clock w)) \<le> s_limit"
    using time_prefix_length[of sys lg tid "clock w"] assms(5) by simp
  then show ?thesis
    using assms
    by (simp add: xsputn_def xsputn_loop_no_newline append_fresh_line)
qed

text \<open>
  On a new logger of a terminal with the color of \<^verbatim>\<open>std::clog\<close>, in the debug build: the
  input of 1001 bytes is accepted and leaves at most 1000 bytes in the buffer.
\<close>

theorem append_within_limit_witness:
  "length (m_text new_line_buffer) < s_limit \<and>
   (\<exists>w' lb'. append os0 (logger_ctor os0 2 no_color) 1 (replicate 1001 CHR ''x'')
                (world0, new_line_buffer) = Inr (w', lb') \<and>
             length (m_text lb') \<le> s_limit)"
  using append_within_limit[of os0 "logger_ctor os0 2 no_color" 1 "replicate 1001 CHR ''x''"
          world0 new_line_buffer]
  by (auto simp: new_line_buffer_def s_limit_def)

text \<open>
  The case left out above does occur in the debug build: 976 bytes behind a timestamp of
  24 bytes fill the buffer to exactly 1000 bytes without a flush, and the next byte fails
  the \<^verbatim>\<open>assert\<close>.
\<close>

lemma full_buffer_then_assert:
  "append os0 (logger_ctor os0 2 no_color) 1 (replicate 976 CHR ''x'') (world0, new_line_buffer) =
     Inr (world0\<lparr>clock := 1\<rparr>,
          new_line_buffer\<lparr>m_text := ''12:34:56.789 [0000beef] '' @ replicate 976 CHR ''x''\<rparr>) \<and>
   append os0 (logger_ctor os0 2 no_color) 1 ''y''
     (world0\<lparr>clock := 1\<rparr>,
      new_line_buffer\<lparr>m_text := ''12:34:56.789 [0000beef] '' @ replicate 976 CHR ''x''\<rparr>) =
     Inl Assertion_failed"
  by (simp add: append_def append_time_eq time_prefix_eq append_loop.simps s_limit_def
        new_line_buffer_def)

text \<open>The two calls on a new logger of a terminal with the color of \<^verbatim>\<open>std::clog\<close>.\<close>

theorem two_appends_one_line_witness:
  "m_text (buffer (logger_ctor os_tty 2 EXT_LOG_COLOR) 1) = [] \<and>
   m_prepend_time (logger_ctor os_tty 2 EXT_LOG_COLOR) \<and>
   (\<exists>w1 lg1 w2 lg2.
      xsputn os_tty 1 ''ab'' (world0, logger_ctor os_tty 2 EXT_LOG_COLOR) = Inr (2, w1, lg1) \<and>
      xsputn os_tty 1 (''c'' @ [LF]) (w1, lg1) = Inr (2, w2, lg2) \<and>
      events w1 = [] \<and>
      events w2 = [Write_file 2
         (ESC # ''[37;40;1m12:34:56.789 [0000beef] abc'' @ ESC # ''[0m'' @ [LF]) True] \<and>
      m_text (buffer lg2 1) = [])"
proof -
  have c: "EXT_LOG_COLOR \<noteq> no_color"
    by (simp add: EXT_LOG_COLOR_def no_color_def fg_white_def fg_bright_def)
  show ?thesis
    using two_appends_one_line[of "logger_ctor os_tty 2 EXT_LOG_COLOR" 1 os_tty world0] c
    by (simp add: time_prefix_eq color_sequence_log reset_sequence_def)
qed

section \<open>The threshold\<close>

text \<open>
  Claim C8. A level is active on either channel exactly when its value is at least the
  value of the threshold \<^verbatim>\<open>EXT_LOG_LEVEL\<close>. With the threshold \<^verbatim>\<open>warn\<close> the active
  levels are \<^verbatim>\<open>warn\<close>, \<^verbatim>\<open>error\<close> and \<^verbatim>\<open>crit\<close>: the statement behind \<^verbatim>\<open>LDEBUG_\<close>
  is not run and changes nothing, the statement behind \<^verbatim>\<open>LWARN_\<close> is run.
\<close>

theorem activity_is_threshold:
  "(is_clog_active thr lv \<longleftrightarrow> level_value thr \<le> level_value lv) \<and>
   (is_cerr_active thr lv \<longleftrightarrow> level_value thr \<le> level_value lv) \<and>
   (is_clog_active warn lv \<longleftrightarrow> lv = warn \<or> lv = error \<or> lv = crit) \<and>
   (is_cerr_active warn lv \<longleftrightarrow> lv = warn \<or> lv = error \<or> lv = crit) \<and>
   LDEBUG warn stmt s = Inr s \<and>
   LWARN warn stmt s = stmt s"
  by (cases lv) (simp_all add: is_clog_active_def is_cerr_active_def LDEBUG_def LWARN_def
        EXT_CLOG_IF_def EXT_CERR_IF_def)

text \<open>
  The scenario on terminals: with the threshold \<^verbatim>\<open>warn\<close> the debug line leaves the world
  and the logger of \<^verbatim>\<open>std::clog\<close> as they were, and the warning is written as one line
  in the color of \<^verbatim>\<open>std::cerr\<close>.
\<close>

theorem threshold_warn_scenario:
  "LDEBUG warn (ostream_write os_tty 1 (''starting'' @ [LF]))
     (world0, logger_ctor os_tty 2 EXT_LOG_COLOR) =
     Inr (world0, logger_ctor os_tty 2 EXT_LOG_COLOR) \<and>
   (\<exists>w' lg'. LWARN warn (ostream_write os_tty 1 (''disk full'' @ [LF]))
       (world0, logger_ctor os_tty 2 EXT_ERR_COLOR) = Inr (w', lg') \<and>
     events w' = [Write_file 2
       (ESC # ''[37;41;1m12:34:56.789 [0000beef] disk full'' @ ESC # ''[0m'' @ [LF]) True])"
proof -
  have c: "EXT_ERR_COLOR \<noteq> no_color"
    by (simp add: EXT_ERR_COLOR_def no_color_def fg_white_def fg_bright_def bg_red_def)
  have nl: "LF \<notin> set ''disk full''" by (simp add: LF_def)
  show ?thesis
    using c
    by (simp add: LDEBUG_def LWARN_def EXT_CLOG_IF_def EXT_CERR_IF_def is_clog_active_def
          is_cerr_active_def ostream_write_def
          xsputn_one_line[OF _ _ nl, of "logger_ctor os_tty 2 EXT_ERR_COLOR" 1 os_tty world0, simplified]
          s_limit_def time_prefix_eq color_sequence_err reset_sequence_def)
qed

section \<open>Redirection to a file that cannot be opened\<close>

lemma writes_to_simps [simp]:
  "writes_to h []"
  "writes_to h (Write_file h' s ok # es) \<longleftrightarrow> h' = h \<and> writes_to h es"
  "writes_to h (es @ es') \<longleftrightarrow> writes_to h es \<and> writes_to h es'"
  by (simp_all add: writes_to_def)

lemma append_body_events:
  assumes "append_body sys owner tid buf (w, lb) = (buf', w', lb')"
  shows "\<exists>es. events w' = events w @ es \<and> writes_to (m_con owner) es"
  using assms
  by (auto simp: append_body_def Let_def flush_eq append_time_eq split: if_splits)

lemma append_loop_events:
  "append_loop sys owner tid buf st = Inr (w', lb')
     \<Longrightarrow> \<exists>es. events w' = events (fst st) @ es \<and> writes_to (m_con owner) es"
proof (induction sys owner tid buf st rule: append_loop.induct)
  case (1 sys owner tid buf w lb)
  show ?case
  proof (cases "length buf + length (m_text lb) > s_limit")
    case False
    with "1.prems" show ?thesis
      by (auto simp: append_loop.simps split: if_splits)
  next
    case True
    with "1.prems" have na: "\<not> (\<not> NDEBUG sys \<and> \<not> length (m_text lb) < s_limit)"
      by (auto simp: append_loop.simps split: if_splits)
    obtain buf' w1 lb1 where b: "append_body sys owner tid buf (w, lb) = (buf', w1, lb1)"
      by (cases "append_body sys owner tid buf (w, lb)") auto
    from "1.prems" True na b have "append_loop sys owner tid buf' (w1, lb1) = Inr (w', lb')"
      by (simp add: append_loop.simps[of sys owner tid buf])
    from "1.IH"[OF True na b[symmetric] this] append_body_events[OF b]
    show ?thesis by auto
  qed
qed

lemma append_events:
  "append sys owner tid buf (w, lb) = Inr (w', lb')
     \<Longrightarrow> \<exists>es. events w' = events w @ es \<and> writes_to (m_con owner) es"
  by (auto simp: append_def append_time_eq dest!: append_loop_events split: if_splits)

lemma flush_events:
  "flush sys owner (w, lb) = (w', lb')
     \<Longrightarrow> \<exists>es. events w' = events w @ es \<and> writes_to (m_con owner) es"
  by (auto simp: flush_eq)

lemma xsputn_loop_events:
  "xsputn_loop sys owner tid buf st = Inr (w', lb')
     \<Longrightarrow> \<exists>es. events w' = events (fst st) @ es \<and> writes_to (m_con owner) es"
proof (induction sys owner tid buf st rule: xsputn_loop.induct)
  case (1 sys owner tid buf st)
  obtain w lb where st: "st = (w, lb)" by (cases st)
  show ?case
  proof (cases "buf = []")
    case True
    with "1.prems" show ?thesis by (simp add: xsputn_loop.simps)
  next
    case ne: False
    show ?thesis
    proof (cases "LF \<in> set buf")
      case False
      with ne "1.prems" st show ?thesis
        using append_events[of sys owner tid buf w lb w' lb']
        by (simp add: xsputn_loop.simps[of sys owner tid buf])
    next
      case True
      let ?line = "takeWhile (\<lambda>c. c \<noteq> LF) buf"
      let ?r = "if ?line \<noteq> [] then append sys owner tid ?line st else Inr st"
      from "1.prems" ne True obtain w1 lb1 where
        r: "?r = Inr (w1, lb1)" and
        x: "xsputn_loop sys owner tid (drop (length ?line + 1) buf) (flush sys owner (w1, lb1))
              = Inr (w', lb')"
        by (auto simp: xsputn_loop.simps[of sys owner tid buf] Let_def split: sum.splits if_splits)
      have e1: "\<exists>es. events w1 = events w @ es \<and> writes_to (m_con owner) es"
        using r st append_events[of sys owner tid ?line w lb w1 lb1]
        by (auto split: if_splits)
      obtain w2 lb2 where f: "flush sys owner (w1, lb1) = (w2, lb2)"
        by (cases "flush sys owner (w1, lb1)")
      have ne': "0 < length buf" using ne by simp
      have "\<exists>es. events w' = events (fst (flush sys owner (w1, lb1))) @ es \<and>
                 writes_to (m_con owner) es"
        using "1.IH"[OF ne' _ refl r x] True by simp
      with e1 flush_events[OF f] f st show ?thesis by auto
    qed
  qed
qed

lemma xsputn_events:
  "xsputn sys tid buf (w, lg) = Inr (n, w', lg')
     \<Longrightarrow> \<exists>es. events w' = events w @ es \<and> writes_to (m_con lg) es"
  by (auto simp: xsputn_def dest!: xsputn_loop_events split: sum.splits)

text \<open>
  Claim C4. When the file cannot be opened, \<^verbatim>\<open>redirect\<close> returns false; the only call
  made is the failed attempt to open the file, and the logger (its handle, its color flag,
  its ownership flag, its line buffers) is the one given. Every call made by a write after
  it is a write to the handle the logger had before.
\<close>

theorem redirect_failure_keeps_sink:
  assumes "open_file sys filename = None"
  shows "redirect_filename sys tid filename (w, lg) =
           (False, w\<lparr>events := events w @ [Create_file filename None]\<rparr>, lg) \<and>
         (\<forall>buf n w2 lg2.
            xsputn sys tid buf (snd (redirect_filename sys tid filename (w, lg))) = Inr (n, w2, lg2)
            \<longrightarrow> (\<exists>es. events w2 = events w @ [Create_file filename None] @ es \<and>
                      writes_to (m_con lg) es))"
proof (intro conjI allI impI)
  show r: "redirect_filename sys tid filename (w, lg) =
           (False, w\<lparr>events := events w @ [Create_file filename None]\<rparr>, lg)"
    using assms by (simp add: redirect_filename_def create_file_def)
  fix buf n w2 lg2
  assume "xsputn sys tid buf (snd (redirect_filename sys tid filename (w, lg))) = Inr (n, w2, lg2)"
  with r have "xsputn sys tid buf (w\<lparr>events := events w @ [Create_file filename None]\<rparr>, lg)
                 = Inr (n, w2, lg2)" by simp
  from xsputn_events[OF this]
  show "\<exists>es. events w2 = events w @ [Create_file filename None] @ es \<and> writes_to (m_con lg) es"
    by simp
qed

text \<open>A path that cannot be opened, and a line written afterwards: it goes to handle 2.\<close>

theorem redirect_failure_keeps_sink_witness:
  "open_file os0 ''/no/such/dir/log'' = None \<and>
   redirect_filename os0 1 ''/no/such/dir/log'' (world0, logger_ctor os0 2 EXT_LOG_COLOR) =
     (False, world0\<lparr>events := [Create_file ''/no/such/dir/log'' None]\<rparr>,
      logger_ctor os0 2 EXT_LOG_COLOR) \<and>
   (case xsputn os0 1 (''x'' @ [LF])
           (snd (redirect_filename os0 1 ''/no/such/dir/log''
                   (world0, logger_ctor os0 2 EXT_LOG_COLOR))) of
      Inl e \<Rightarrow> False
    | Inr (n, w2, lg2) \<Rightarrow>
        events w2 = [Create_file ''/no/such/dir/log'' None,
                     Write_file 2 (''12:34:56.789 [0000beef] x'' @ [LF]) True])"
proof -
  have nl: "LF \<notin> set ''x''" by (simp add: LF_def)
  show ?thesis
    using redirect_failure_keeps_sink[of os0 "''/no/such/dir/log''" 1 world0
            "logger_ctor os0 2 EXT_LOG_COLOR"]
    by (simp add: xsputn_one_line[OF _ _ nl, simplified] s_limit_def time_prefix_eq)
qed

section \<open>Changing the color while a line is pending\<close>

text \<open>
  The two builds read the custom color at different times. In the ANSI build it is read
  by \<^verbatim>\<open>append_time\<close>, when a line begins: \<^verbatim>\<open>set_color\<close> leaves the line buffers as
  they are, the flush does not depend on the custom color, and the new color is the one
  put in front of the next line.
\<close>

lemma set_color_read_at_line_start:
  "buffer (set_color attr lg) tid = buffer lg tid \<and>
   flush sys (set_color attr lg) (w, lb) = flush sys lg (w, lb) \<and>
   append_time sys (set_color attr lg) tid (w, lb) =
     (w\<lparr>clock := clock w + 1\<rparr>,
      lb\<lparr>m_text := m_text lb @
           (if m_use_color lg then color_sequence (set_color attr lg) else []) @
           timestamp sys tid (clock w),
         m_default_color := (if m_use_color lg then attr else m_default_color lb)\<rparr>)"
  by (simp add: flush_eq append_time_eq time_prefix_eq)

text \<open>
  In the Win32 build the custom color is read by the flush. On a console, and without a
  conversion of the code page, the flush after \<^verbatim>\<open>set_color\<close> sets the new color, writes
  the pending text, sets the attribute word the console had, if that is not the value
  "no custom color", and writes the line terminator.
\<close>

lemma set_color_read_at_flush_win32:
  assumes "m_use_color lg" and "attr \<noteq> no_color" and "console w (m_con lg) = Some old"
    and "\<not> m_convert_cp lb"
  shows "events (fst (flush_win32 sys (set_color attr lg) (w, lb))) =
           events w @
           [Set_console_text_attribute (m_con lg) attr,
            Write_file (m_con lg) (m_text lb) (write_ok sys (Suc (length (events w))))] @
           (if old \<noteq> no_color then [Set_console_text_attribute (m_con lg) old] else []) @
           [Write_file (m_con lg) [CR, LF]
              (write_ok sys (length (events w) + (if old \<noteq> no_color then 3 else 2)))]"
    and "snd (flush_win32 sys (set_color attr lg) (w, lb)) =
           lb\<lparr>m_default_color := old, m_text := []\<rparr>"
proof -
  have n: "no_color \<noteq> attr" using assms(2) by auto
  show "events (fst (flush_win32 sys (set_color attr lg) (w, lb))) =
           events w @
           [Set_console_text_attribute (m_con lg) attr,
            Write_file (m_con lg) (m_text lb) (write_ok sys (Suc (length (events w))))] @
           (if old \<noteq> no_color then [Set_console_text_attribute (m_con lg) old] else []) @
           [Write_file (m_con lg) [CR, LF]
              (write_ok sys (length (events w) + (if old \<noteq> no_color then 3 else 2)))]"
    using assms n
    by (simp add: flush_win32_def set_custom_color_win32_def Let_def SetConsoleTextAttribute_def
          write_line_def eval_nat_numeral)
  show "snd (flush_win32 sys (set_color attr lg) (w, lb)) =
           lb\<lparr>m_default_color := old, m_text := []\<rparr>"
    using assms n
    by (simp add: flush_win32_def set_custom_color_win32_def Let_def)
qed

text \<open>
  Claim C5, the code at an input where it fails. In the ANSI build a logger of a terminal
  with the color of \<^verbatim>\<open>std::clog\<close> receives "ab"; its color is then set to the color of
  \<^verbatim>\<open>std::cerr\<close>, whose sequence is ESC [37;41;1m; the newline that follows writes the
  line with the sequence ESC [37;40;1m of the old color. The flush of the Win32 build, on
  a console whose attribute word is 7 and after the same change of color, sets the new
  color before it writes the pending line.
\<close>

theorem set_color_pending_line_old_color:
  "(case xsputn os_tty 1 ''ab'' (world0, logger_ctor os_tty 2 EXT_LOG_COLOR) of
      Inl e \<Rightarrow> False
    | Inr (n, w1, lg1) \<Rightarrow>
        (case overflow os_tty 1 (of_char LF) (w1, set_color EXT_ERR_COLOR lg1) of
           Inl e \<Rightarrow> False
         | Inr (c, w2, lg2) \<Rightarrow>
             get_color (set_color EXT_ERR_COLOR lg1) = EXT_ERR_COLOR \<and>
             color_sequence (set_color EXT_ERR_COLOR lg1) = ESC # ''[37;41;1m'' \<and>
             events w2 =
               [Write_file 2 (ESC # ''[37;40;1m12:34:56.789 [0000beef] ab'' @ ESC # ''[0m'' @ [LF])
                  True])) \<and>
   events (fst (flush_win32 os_tty (set_color EXT_ERR_COLOR (logger_ctor os_tty 2 EXT_LOG_COLOR))
                  (world0\<lparr>console := (\<lambda>h. Some 7)\<rparr>,
                   new_line_buffer\<lparr>m_text := ''12:34:56.789 [48879] ab''\<rparr>))) =
     [Set_console_text_attribute 2 EXT_ERR_COLOR,
      Write_file 2 ''12:34:56.789 [48879] ab'' True,
      Set_console_text_attribute 2 7,
      Write_file 2 [CR, LF] True]"
proof -
  have nl: "LF \<notin> set ''ab''" by (simp add: LF_def)
  have cs: "color_sequence (set_color EXT_ERR_COLOR lg) = ESC # ''[37;41;1m''" for lg
    by (simp add: color_sequence_def set_custom_color_def Let_def set_color_fields
        foreground_def background_def color_defs no_color_def fg_bright_def bg_bright_def
        new_line_buffer_def EXT_ERR_COLOR_def)
  have ansi: "case xsputn os_tty 1 ''ab'' (world0, logger_ctor os_tty 2 EXT_LOG_COLOR) of
      Inl e \<Rightarrow> False
    | Inr (n, w1, lg1) \<Rightarrow>
        (case overflow os_tty 1 (of_char LF) (w1, set_color EXT_ERR_COLOR lg1) of
           Inl e \<Rightarrow> False
         | Inr (c, w2, lg2) \<Rightarrow>
             get_color (set_color EXT_ERR_COLOR lg1) = EXT_ERR_COLOR \<and>
             color_sequence (set_color EXT_ERR_COLOR lg1) = ESC # ''[37;41;1m'' \<and>
             events w2 =
               [Write_file 2 (ESC # ''[37;40;1m12:34:56.789 [0000beef] ab'' @ ESC # ''[0m'' @ [LF])
                  True])"
    by (simp add: xsputn_fresh_text[OF _ _ nl] s_limit_def overflow_def of_char_LF char_of_10
          flush_eq time_prefix_eq color_sequence_log reset_sequence_def cs)
  have n: "(7 :: color_t) \<noteq> no_color" by (simp add: no_color_def)
  have win32: "events (fst (flush_win32 os_tty
                  (set_color EXT_ERR_COLOR (logger_ctor os_tty 2 EXT_LOG_COLOR))
                  (world0\<lparr>console := (\<lambda>h. Some 7)\<rparr>,
                   new_line_buffer\<lparr>m_text := ''12:34:56.789 [48879] ab''\<rparr>))) =
     [Set_console_text_attribute 2 EXT_ERR_COLOR,
      Write_file 2 ''12:34:56.789 [48879] ab'' True,
      Set_console_text_attribute 2 7,
      Write_file 2 [CR, LF] True]"
    using n
    by (subst set_color_read_at_flush_win32(1)[where old = 7])
       (simp_all add: new_line_buffer_def)
  show ?thesis using ansi win32 by (rule conjI)
qed

section \<open>Input longer than the limit\<close>

lemma line_prefix_length: "length (line_prefix sys owner tid n) \<le> 42"
  using time_prefix_length[of sys owner tid n] by (simp add: line_prefix_def)

lemma append_body_eq:
  assumes "length (m_text lb) < s_limit" and "length buf + length (m_text lb) > s_limit"
  shows "append_body sys owner tid buf (w, lb) =
     (drop (s_limit - length (m_text lb)) buf,
      (if m_prepend_time owner then append_time sys owner tid else id)
        (flush sys owner (w, lb\<lparr>m_text := m_text lb @ take (s_limit - length (m_text lb)) buf\<rparr>)))"
proof -
  have "size_t_sub s_limit (length (m_text lb)) = s_limit - length (m_text lb)"
    using assms(1) by (intro size_t_sub_small) (simp_all add: s_limit_def)
  moreover have "min (s_limit - length (m_text lb)) (length buf) = s_limit - length (m_text lb)"
    using assms by simp
  moreover have "drop (s_limit - length (m_text lb)) buf \<noteq> []"
    using assms by simp
  ultimately show ?thesis
    by (simp add: append_body_def Let_def)
qed

lemma default_color_update_same:
  "m_default_color lb = c \<Longrightarrow> lb\<lparr>m_text := t, m_default_color := c\<rparr> = lb\<lparr>m_text := t\<rparr>"
  by (cases lb) simp

lemma append_loop_step:
  assumes "m_text lb = line_prefix sys owner tid n"
    and "m_prepend_time owner \<Longrightarrow> clock w = Suc n"
    and "m_prepend_time owner \<Longrightarrow> m_use_color owner \<Longrightarrow> m_default_color lb = get_color owner"
    and "length buf + length (m_text lb) > s_limit"
  shows "append_loop sys owner tid buf (w, lb) =
     append_loop sys owner tid (drop (s_limit - length (line_prefix sys owner tid n)) buf)
       (w\<lparr>events := events w @
            [Write_file (m_con owner)
               (line_prefix sys owner tid n @
                take (s_limit - length (line_prefix sys owner tid n)) buf @
                line_suffix (m_default_color lb))
               (write_ok sys (length (events w)))],
          clock := clock w + (if m_prepend_time owner then 1 else 0)\<rparr>,
        lb\<lparr>m_text := line_prefix sys owner tid (Suc n)\<rparr>)"
proof -
  have lt: "length (m_text lb) < s_limit"
    using line_prefix_length[of sys owner tid n] assms(1) by (simp add: s_limit_def)
  have ne: "take (s_limit - length (line_prefix sys owner tid n)) buf \<noteq> []"
    using lt assms(1,4) by auto
  show ?thesis
  proof (cases "m_prepend_time owner")
    case True
    then show ?thesis
      using lt assms ne
      by (simp add: append_loop.simps[of sys owner tid buf] append_body_eq flush_eq
            append_time_eq line_prefix_def line_suffix_def default_color_update_same)
  next
    case False
    then show ?thesis
      using lt assms ne
      by (simp add: append_loop.simps[of sys owner tid buf] append_body_eq flush_eq
            line_prefix_def line_suffix_def)
  qed
qed

lemma write_calls_simps [simp]:
  "write_calls sys h n [] = []"
  "write_calls sys h n (l # ls) = Write_file h l (write_ok sys n) # write_calls sys h (Suc n) ls"
  by (simp_all add: write_calls_def)

lemma flushed_lines_simps [simp]:
  "flushed_lines sys owner tid dc n [] = []"
  "flushed_lines sys owner tid dc n (c # cs) =
     (line_prefix sys owner tid n @ c @ line_suffix dc) # flushed_lines sys owner tid dc (Suc n) cs"
  by (simp_all add: flushed_lines_def)

lemma full_lines_simps [simp]:
  "full_lines sys owner tid n []"
  "full_lines sys owner tid n (c # cs) \<longleftrightarrow>
     length (line_prefix sys owner tid n @ c) = s_limit \<and> full_lines sys owner tid (Suc n) cs"
  by (simp_all add: full_lines_def)

lemma length_flushed_lines [simp]:
  "length (flushed_lines sys owner tid dc n chunks) = length chunks"
  by (simp add: flushed_lines_def)

lemma length_write_calls [simp]: "length (write_calls sys h n lines) = length lines"
  by (simp add: write_calls_def)

lemma append_loop_splits:
  assumes "m_text lb = line_prefix sys owner tid n"
    and "m_prepend_time owner \<Longrightarrow> clock w = Suc n"
    and "m_prepend_time owner \<Longrightarrow> m_use_color owner \<Longrightarrow> m_default_color lb = get_color owner"
  shows "\<exists>chunks tail.
     concat chunks @ tail = buf \<and>
     (buf \<noteq> [] \<longrightarrow> tail \<noteq> []) \<and>
     full_lines sys owner tid n chunks \<and>
     length (line_prefix sys owner tid (n + length chunks)) + length tail \<le> s_limit \<and>
     (chunks = [] \<longrightarrow> length buf + length (m_text lb) \<le> s_limit) \<and>
     append_loop sys owner tid buf (w, lb) =
       Inr (w\<lparr>events := events w @
                 write_calls sys (m_con owner) (length (events w))
                   (flushed_lines sys owner tid (m_default_color lb) n chunks),
               clock := clock w + (if m_prepend_time owner then length chunks else 0)\<rparr>,
            lb\<lparr>m_text := line_prefix sys owner tid (n + length chunks) @ tail\<rparr>)"
  using assms
proof (induction "length buf" arbitrary: buf w lb n rule: less_induct)
  case less
  let ?pre = "line_prefix sys owner tid"
  show ?case
  proof (cases "length buf + length (m_text lb) > s_limit")
    case False
    with less.prems(1) have
      "append_loop sys owner tid buf (w, lb) = Inr (w, lb\<lparr>m_text := ?pre n @ buf\<rparr>)"
      by (simp add: append_loop_fits)
    with False less.prems(1) show ?thesis
      by (intro exI[of _ "[]"] exI[of _ buf]) simp
  next
    case True
    let ?k = "s_limit - length (?pre n)"
    let ?c0 = "take ?k buf"
    let ?rest = "drop ?k buf"
    let ?w1 = "w\<lparr>events := events w @
            [Write_file (m_con owner) (?pre n @ ?c0 @ line_suffix (m_default_color lb))
               (write_ok sys (length (events w)))],
          clock := clock w + (if m_prepend_time owner then 1 else 0)\<rparr>"
    let ?lb1 = "lb\<lparr>m_text := ?pre (Suc n)\<rparr>"
    have p: "length (?pre n) \<le> 42" by (rule line_prefix_length)
    have k: "0 < ?k" "?k < length buf"
      using p True less.prems(1) by (simp_all add: s_limit_def)
    have c0: "length ?c0 = ?k" using k by simp
    have shorter: "length ?rest < length buf" using k by simp
    have rest: "?rest \<noteq> []" using k by simp
    have step: "append_loop sys owner tid buf (w, lb) = append_loop sys owner tid ?rest (?w1, ?lb1)"
      using append_loop_step[OF less.prems True] .
    have "\<exists>chunks tail.
       concat chunks @ tail = ?rest \<and>
       (?rest \<noteq> [] \<longrightarrow> tail \<noteq> []) \<and>
       full_lines sys owner tid (Suc n) chunks \<and>
       length (?pre (Suc n + length chunks)) + length tail \<le> s_limit \<and>
       (chunks = [] \<longrightarrow> length ?rest + length (m_text ?lb1) \<le> s_limit) \<and>
       append_loop sys owner tid ?rest (?w1, ?lb1) =
         Inr (?w1\<lparr>events := events ?w1 @
                   write_calls sys (m_con owner) (length (events ?w1))
                     (flushed_lines sys owner tid (m_default_color ?lb1) (Suc n) chunks),
                 clock := clock ?w1 + (if m_prepend_time owner then length chunks else 0)\<rparr>,
              ?lb1\<lparr>m_text := ?pre (Suc n + length chunks) @ tail\<rparr>)"
      using less.prems by (intro less.hyps[OF shorter]) simp_all
    then obtain chunks tail where
      cat: "concat chunks @ tail = ?rest" and
      tl: "tail \<noteq> []" and
      full: "full_lines sys owner tid (Suc n) chunks" and
      fit: "length (?pre (Suc n + length chunks)) + length tail \<le> s_limit" and
      res: "append_loop sys owner tid ?rest (?w1, ?lb1) =
         Inr (?w1\<lparr>events := events ?w1 @
                   write_calls sys (m_con owner) (length (events ?w1))
                     (flushed_lines sys owner tid (m_default_color ?lb1) (Suc n) chunks),
                 clock := clock ?w1 + (if m_prepend_time owner then length chunks else 0)\<rparr>,
              ?lb1\<lparr>m_text := ?pre (Suc n + length chunks) @ tail\<rparr>)"
      using rest by blast
    have c1: "concat (?c0 # chunks) @ tail = buf" using cat by simp
    have c2: "full_lines sys owner tid n (?c0 # chunks)"
      using full c0 p by (simp add: s_limit_def)
    show ?thesis
      apply (intro exI[of _ "?c0 # chunks"] exI[of _ tail] conjI)
      subgoal using c1 .
      subgoal using tl by simp
      subgoal using c2 .
      subgoal using fit by simp
      subgoal by simp
      subgoal unfolding step res by simp
      done
  qed
qed

lemma full_lines_length:
  assumes "full_lines sys owner tid n chunks"
    and "\<And>k. length (line_prefix sys owner tid k) = p"
  shows "length (concat chunks) = length chunks * (s_limit - p)"
  using assms(1)
proof (induction chunks arbitrary: n)
  case Nil
  then show ?case by simp
next
  case (Cons c cs)
  then have "length c = s_limit - p" and "full_lines sys owner tid (Suc n) cs"
    using assms(2)[of n] by auto
  with Cons.IH[of "Suc n"] show ?case by simp
qed

lemma full_lines_content:
  "full_lines sys owner tid n chunks \<Longrightarrow> list_all (\<lambda>c. length c \<le> s_limit) chunks"
  by (induction chunks arbitrary: n) auto

lemma append_long_input:
  assumes "m_text lb = []"
  shows "\<exists>chunks tail.
     concat chunks @ tail = buf \<and>
     (buf \<noteq> [] \<longrightarrow> tail \<noteq> []) \<and>
     (s_limit < length buf \<longrightarrow> chunks \<noteq> []) \<and>
     full_lines sys owner tid (clock w) chunks \<and>
     length (line_prefix sys owner tid (clock w + length chunks)) + length tail \<le> s_limit \<and>
     append sys owner tid buf (w, lb) =
       Inr (w\<lparr>events := events w @
                 write_calls sys (m_con owner) (length (events w))
                   (flushed_lines sys owner tid
                      (if m_prepend_time owner \<and> m_use_color owner then get_color owner
                       else m_default_color lb)
                      (clock w) chunks),
               clock := clock w + (if m_prepend_time owner then Suc (length chunks) else 0)\<rparr>,
            lb\<lparr>m_default_color :=
                 (if m_prepend_time owner \<and> m_use_color owner then get_color owner
                  else m_default_color lb),
               m_text := line_prefix sys owner tid (clock w + length chunks) @ tail\<rparr>)"
proof -
  let ?dc = "if m_prepend_time owner \<and> m_use_color owner then get_color owner
             else m_default_color lb"
  let ?w0 = "if m_prepend_time owner then w\<lparr>clock := clock w + 1\<rparr> else w"
  let ?lb0 = "lb\<lparr>m_default_color := ?dc, m_text := line_prefix sys owner tid (clock w)\<rparr>"
  have start: "append sys owner tid buf (w, lb) = append_loop sys owner tid buf (?w0, ?lb0)"
    using assms
    by (cases lb) (simp add: append_def append_time_eq line_prefix_def)
  have "\<exists>chunks tail.
     concat chunks @ tail = buf \<and>
     (buf \<noteq> [] \<longrightarrow> tail \<noteq> []) \<and>
     full_lines sys owner tid (clock w) chunks \<and>
     length (line_prefix sys owner tid (clock w + length chunks)) + length tail \<le> s_limit \<and>
     (chunks = [] \<longrightarrow> length buf + length (m_text ?lb0) \<le> s_limit) \<and>
     append_loop sys owner tid buf (?w0, ?lb0) =
       Inr (?w0\<lparr>events := events ?w0 @
                 write_calls sys (m_con owner) (length (events ?w0))
                   (flushed_lines sys owner tid (m_default_color ?lb0) (clock w) chunks),
               clock := clock ?w0 + (if m_prepend_time owner then length chunks else 0)\<rparr>,
            ?lb0\<lparr>m_text := line_prefix sys owner tid (clock w + length chunks) @ tail\<rparr>)"
    by (rule append_loop_splits) simp_all
  then obtain chunks tail where
    cat: "concat chunks @ tail = buf" and
    tl: "buf \<noteq> [] \<longrightarrow> tail \<noteq> []" and
    full: "full_lines sys owner tid (clock w) chunks" and
    fit: "length (line_prefix sys owner tid (clock w + length chunks)) + length tail \<le> s_limit" and
    none: "chunks = [] \<longrightarrow> length buf + length (m_text ?lb0) \<le> s_limit" and
    res: "append_loop sys owner tid buf (?w0, ?lb0) =
       Inr (?w0\<lparr>events := events ?w0 @
                 write_calls sys (m_con owner) (length (events ?w0))
                   (flushed_lines sys owner tid (m_default_color ?lb0) (clock w) chunks),
               clock := clock ?w0 + (if m_prepend_time owner then length chunks else 0)\<rparr>,
            ?lb0\<lparr>m_text := line_prefix sys owner tid (clock w + length chunks) @ tail\<rparr>)"
    by blast
  show ?thesis
    apply (intro exI[of _ chunks] exI[of _ tail] conjI)
    subgoal using cat .
    subgoal using tl .
    subgoal using none by auto
    subgoal using full .
    subgoal using fit .
    subgoal unfolding start res by simp
    done
qed

lemma chunk_count:
  fixes m b t L :: nat
  assumes "L = m * b + t" and "0 < t" and "t \<le> b"
  shows "(L - 1) div b = m"
proof -
  have "L - 1 = (t - 1) + m * b" using assms by simp
  moreover have "t - 1 < b" using assms by simp
  ultimately show ?thesis by simp
qed

lemma append_long_count:
  assumes "concat chunks @ tail = buf" and "tail \<noteq> []"
    and "full_lines sys owner tid n chunks"
    and "length (line_prefix sys owner tid (n + length chunks)) + length tail \<le> s_limit"
    and "\<And>k. length (line_prefix sys owner tid k) = p"
  shows "length chunks = (length buf - 1) div (s_limit - p)"
proof -
  have "length buf = length chunks * (s_limit - p) + length tail"
    using assms(1) full_lines_length[OF assms(3,5)]
    by (metis length_append)
  moreover have "0 < length tail" using assms(2) by simp
  moreover have "length tail \<le> s_limit - p"
    using assms(4) assms(5)[of "n + length chunks"] by simp
  ultimately show ?thesis by (rule chunk_count[symmetric])
qed

text \<open>
  Claim C1, as the code has it. An input of more than 1000 bytes appended to a line buffer
  without text is cut into chunks and a tail, none of them empty, which put together are
  the input. Each chunk is flushed as a line of its own, behind the prefix of the line
  and before the suffix, and prefix and chunk together are exactly 1000 bytes, so that a
  line carries at most 1000 bytes of the input. The tail is not flushed: it stays in the
  buffer behind a prefix, within the 1000 bytes. When all prefixes have the same length
  \<open>p\<close>, the number of lines flushed is \<open>(L - 1) div (1000 - p)\<close>, that is
  \<open>\<lceil>L / (1000 - p)\<rceil> - 1\<close>.
\<close>

theorem append_splits_long_input:
  assumes "m_text lb = []" and "s_limit < length buf"
  shows "\<exists>chunks tail w' lb'.
     append sys owner tid buf (w, lb) = Inr (w', lb') \<and>
     chunks \<noteq> [] \<and> tail \<noteq> [] \<and> concat chunks @ tail = buf \<and>
     full_lines sys owner tid (clock w) chunks \<and>
     list_all (\<lambda>c. length c \<le> s_limit) chunks \<and>
     events w' = events w @
       write_calls sys (m_con owner) (length (events w))
         (flushed_lines sys owner tid
            (if m_prepend_time owner \<and> m_use_color owner then get_color owner
             else m_default_color lb)
            (clock w) chunks) \<and>
     m_text lb' = line_prefix sys owner tid (clock w + length chunks) @ tail \<and>
     length (m_text lb') \<le> s_limit \<and>
     (\<forall>p. (\<forall>k. length (line_prefix sys owner tid k) = p)
          \<longrightarrow> length chunks = (length buf - 1) div (s_limit - p))"
proof -
  from append_long_input[OF assms(1), of buf sys owner tid w] assms(2)
  obtain chunks tail where
    cat: "concat chunks @ tail = buf" and
    tl: "tail \<noteq> []" and
    ne: "chunks \<noteq> []" and
    full: "full_lines sys owner tid (clock w) chunks" and
    fit: "length (line_prefix sys owner tid (clock w + length chunks)) + length tail \<le> s_limit" and
    res: "append sys owner tid buf (w, lb) =
       Inr (w\<lparr>events := events w @
                 write_calls sys (m_con owner) (length (events w))
                   (flushed_lines sys owner tid
                      (if m_prepend_time owner \<and> m_use_color owner then get_color owner
                       else m_default_color lb)
                      (clock w) chunks),
               clock := clock w + (if m_prepend_time owner then Suc (length chunks) else 0)\<rparr>,
            lb\<lparr>m_default_color :=
                 (if m_prepend_time owner \<and> m_use_color owner then get_color owner
                  else m_default_color lb),
               m_text := line_prefix sys owner tid (clock w + length chunks) @ tail\<rparr>)"
    by auto
  have count: "\<forall>p. (\<forall>k. length (line_prefix sys owner tid k) = p)
          \<longrightarrow> length chunks = (length buf - 1) div (s_limit - p)"
    using append_long_count[OF cat tl full fit] by blast
  let ?dc = "if m_prepend_time owner \<and> m_use_color owner then get_color owner
             else m_default_color lb"
  let ?w' = "w\<lparr>events := events w @
                 write_calls sys (m_con owner) (length (events w))
                   (flushed_lines sys owner tid ?dc (clock w) chunks),
               clock := clock w + (if m_prepend_time owner then Suc (length chunks) else 0)\<rparr>"
  let ?lb' = "lb\<lparr>m_default_color := ?dc,
               m_text := line_prefix sys owner tid (clock w + length chunks) @ tail\<rparr>"
  show ?thesis
    apply (intro exI[of _ chunks] exI[of _ tail] exI[of _ ?w'] exI[of _ ?lb'] conjI)
    subgoal using res .
    subgoal using ne .
    subgoal using tl .
    subgoal using cat .
    subgoal using full .
    subgoal using full by (rule full_lines_content)
    subgoal by simp
    subgoal by simp
    subgoal using fit by simp
    subgoal using count .
    done
qed

lemma line_prefix_os0 [simp]:
  "line_prefix os0 (logger_ctor os0 h c) tid n = ''12:34:56.789 [0000beef] ''"
  by (simp add: line_prefix_def time_prefix_eq)

text \<open>
  Claim C1 as stated fails. With a timestamp of 24 bytes and no color, 1001 bytes are
  flushed as one line of 976 bytes of input, where \<open>\<lceil>1001 / 1000\<rceil>\<close> is 2, and 25 bytes
  stay in the buffer. And 41000 bytes are flushed as 42 lines with text left in the buffer,
  which a flush would write as a 43rd line, where \<open>\<lceil>41000 / 1000\<rceil>\<close> is 41.
\<close>

theorem append_line_count_counterexample:
  "append os0 (logger_ctor os0 2 no_color) 1 (replicate 1001 CHR ''x'') (world0, new_line_buffer) =
     Inr (world0\<lparr>events := [Write_file 2
                    (''12:34:56.789 [0000beef] '' @ replicate 976 CHR ''x'' @ [LF]) True],
                 clock := 2\<rparr>,
          new_line_buffer\<lparr>m_text := ''12:34:56.789 [0000beef] '' @ replicate 25 CHR ''x''\<rparr>) \<and>
   (1001 + s_limit - 1) div s_limit = 2 \<and>
   (case append os0 (logger_ctor os0 2 no_color) 1 (replicate 41000 CHR ''x'')
           (world0, new_line_buffer) of
      Inl e \<Rightarrow> False
    | Inr (w', lb') \<Rightarrow> length (events w') = 42 \<and> m_text lb' \<noteq> []) \<and>
   (41000 + s_limit - 1) div s_limit = 41"
proof -
  let ?lg = "logger_ctor os0 2 no_color"
  let ?ts = "''12:34:56.789 [0000beef] ''"
  let ?w0 = "world0\<lparr>clock := 1\<rparr>"
  let ?lb0 = "new_line_buffer\<lparr>m_text := ?ts\<rparr>"
  have start: "append os0 ?lg 1 buf (world0, new_line_buffer) = append_loop os0 ?lg 1 buf (?w0, ?lb0)"
    for buf
    by (simp add: append_def append_time_eq time_prefix_eq new_line_buffer_def)
  have s1: "append_loop os0 ?lg 1 (replicate 1001 CHR ''x'') (?w0, ?lb0) =
      append_loop os0 ?lg 1 (replicate 25 CHR ''x'')
        (world0\<lparr>events := [Write_file 2 (?ts @ replicate 976 CHR ''x'' @ [LF]) True],
                clock := 2\<rparr>, ?lb0)"
    by (subst append_loop_step[where n = 0])
       (simp_all add: s_limit_def line_suffix_def new_line_buffer_def numeral_2_eq_2)
  have one: "append os0 ?lg 1 (replicate 1001 CHR ''x'') (world0, new_line_buffer) =
     Inr (world0\<lparr>events := [Write_file 2 (?ts @ replicate 976 CHR ''x'' @ [LF]) True],
                 clock := 2\<rparr>,
          new_line_buffer\<lparr>m_text := ?ts @ replicate 25 CHR ''x''\<rparr>)"
    unfolding start s1
    by (subst append_loop_fits) (simp_all add: s_limit_def new_line_buffer_def)
  from append_long_input[of new_line_buffer "replicate 41000 CHR ''x''" os0 ?lg 1 world0]
  obtain chunks tail where
    cat: "concat chunks @ tail = replicate 41000 CHR ''x''" and
    tl: "tail \<noteq> []" and
    full: "full_lines os0 ?lg 1 (clock world0) chunks" and
    fit: "length (line_prefix os0 ?lg 1 (clock world0 + length chunks)) + length tail \<le> s_limit" and
    res: "append os0 ?lg 1 (replicate 41000 CHR ''x'') (world0, new_line_buffer) =
       Inr (world0\<lparr>events := events world0 @
                 write_calls os0 (m_con ?lg) (length (events world0))
                   (flushed_lines os0 ?lg 1
                      (if m_prepend_time ?lg \<and> m_use_color ?lg then get_color ?lg
                       else m_default_color new_line_buffer)
                      (clock world0) chunks),
               clock := clock world0 + (if m_prepend_time ?lg then Suc (length chunks) else 0)\<rparr>,
            new_line_buffer\<lparr>m_default_color :=
                 (if m_prepend_time ?lg \<and> m_use_color ?lg then get_color ?lg
                  else m_default_color new_line_buffer),
               m_text := line_prefix os0 ?lg 1 (clock world0 + length chunks) @ tail\<rparr>)"
    by auto
  have "length chunks = (length (replicate 41000 CHR ''x'') - 1) div (s_limit - 24)"
    by (rule append_long_count[OF cat tl full fit]) simp
  then have n: "length chunks = 42" by (simp add: s_limit_def)
  have many: "case append os0 ?lg 1 (replicate 41000 CHR ''x'') (world0, new_line_buffer) of
      Inl e \<Rightarrow> False
    | Inr (w', lb') \<Rightarrow> length (events w') = 42 \<and> m_text lb' \<noteq> []"
    unfolding res using n by simp
  show ?thesis
    using one many by (simp add: s_limit_def)
qed

text \<open>The theorem at the input of 1001 bytes: one chunk, and the tail behind a timestamp.\<close>

theorem append_splits_long_input_witness:
  "m_text new_line_buffer = [] \<and> s_limit < length (replicate 1001 CHR ''x'') \<and>
   (\<exists>chunks tail w' lb'.
      append os0 (logger_ctor os0 2 no_color) 1 (replicate 1001 CHR ''x'')
        (world0, new_line_buffer) = Inr (w', lb') \<and>
      concat chunks @ tail = replicate 1001 CHR ''x'' \<and>
      length chunks = 1 \<and>
      events w' = write_calls os0 2 0
        (flushed_lines os0 (logger_ctor os0 2 no_color) 1 no_color 0 chunks) \<and>
      m_text lb' = ''12:34:56.789 [0000beef] '' @ tail)"
proof -
  let ?lg = "logger_ctor os0 2 no_color"
  let ?buf = "replicate 1001 CHR ''x''"
  have h1: "m_text new_line_buffer = []" by simp
  have h2: "s_limit < length ?buf" by (simp add: s_limit_def)
  from append_splits_long_input[OF h1 h2, of os0 ?lg 1 world0]
  obtain chunks tail w' lb' where
    res: "append os0 ?lg 1 ?buf (world0, new_line_buffer) = Inr (w', lb')" and
    cat: "concat chunks @ tail = ?buf" and
    ev: "events w' = events world0 @
       write_calls os0 (m_con ?lg) (length (events world0))
         (flushed_lines os0 ?lg 1
            (if m_prepend_time ?lg \<and> m_use_color ?lg then get_color ?lg
             else m_default_color new_line_buffer)
            (clock world0) chunks)" and
    mt: "m_text lb' = line_prefix os0 ?lg 1 (clock world0 + length chunks) @ tail" and
    count: "\<forall>p. (\<forall>k. length (line_prefix os0 ?lg 1 k) = p)
          \<longrightarrow> length chunks = (length ?buf - 1) div (s_limit - p)"
    by blast
  have "\<forall>k. length (line_prefix os0 ?lg 1 k) = 24" by simp
  with count have "length chunks = (length ?buf - 1) div (s_limit - 24)"
    by blast
  then have n: "length chunks = 1" by (simp add: s_limit_def)
  show ?thesis
    using h1 h2 res cat n ev mt
    by (intro conjI exI[of _ chunks] exI[of _ tail] exI[of _ w'] exI[of _ lb']) simp_all
qed

end
